theory Spec2Isabelle
  imports Complex_Main "HOL-Library.AList"
begin

section \<open>JavaScript values met by the analytics pipeline of \<open>src/app/page.tsx\<close>\<close>

text \<open>
  A JavaScript number is either \<open>NaN\<close>, one of the two infinities, or a finite value.
  A finite value is kept as the exact rational it denotes: rounding to the nearest
  binary64 value is not applied, and the sign of zero is not kept. Overflow to
  \<open>Infinity\<close> is modelled (see \<open>js_Number\<close>).
\<close>

datatype jsnum = NaN | PosInf | NegInf | Fin rat

text \<open>The primitive values that reach the parsing helpers.\<close>

datatype jsval = JUndefined | JNull | JNum jsnum | JStr string

text \<open>\<open>Number.isFinite\<close> on a number.\<close>

fun isFinite :: "jsnum \<Rightarrow> bool" where
  "isFinite (Fin q) = True"
| "isFinite n = False"

text \<open>\<open>Number.isFinite\<close> on any value: false for everything that is not a number.\<close>

fun Number_isFinite :: "jsval \<Rightarrow> bool" where
  "Number_isFinite (JNum n) = isFinite n"
| "Number_isFinite v = False"

subsection \<open>String to number conversion on cleaned strings\<close>

definition is_digit :: "char \<Rightarrow> bool" where
  "is_digit c = (c \<in> set ''0123456789'')"

definition digit_val :: "char \<Rightarrow> nat" where
  "digit_val c = of_char c - 48"

text \<open>The characters kept by \<open>.replace(/[^0-9.\-]/g, "")\<close>.\<close>

definition keeps :: "char \<Rightarrow> bool" where
  "keeps c = (is_digit c \<or> c = CHR ''.'' \<or> c = CHR ''-'')"

definition strip_non_numeric :: "string \<Rightarrow> string" where
  "strip_non_numeric s = filter keeps s"

text \<open>The value of a run of decimal digits, most significant first.\<close>

definition digits_val :: "string \<Rightarrow> nat" where
  "digits_val ds = foldl (\<lambda>acc c. 10 * acc + digit_val c) 0 ds"

text \<open>
  \<open>StrUnsignedDecimalLiteral\<close> of ECMAScript, on strings of digits, \<open>.\<close> and \<open>-\<close>
  (no exponent letter, no \<open>Infinity\<close>, no radix prefix survives the stripping):
  \<open>digits\<close>, \<open>digits . digits?\<close> or \<open>. digits\<close>. \<open>None\<close> is a syntax error.
\<close>

definition unsigned_decimal :: "string \<Rightarrow> rat option" where
  "unsigned_decimal s =
     (let ip = takeWhile is_digit s; rest = dropWhile is_digit s in
      case rest of
        [] \<Rightarrow> (if ip = [] then None else Some (of_nat (digits_val ip)))
      | c # fp \<Rightarrow>
          (if c = CHR ''.'' \<and> list_all is_digit fp \<and> (ip \<noteq> [] \<or> fp \<noteq> [])
           then Some (of_nat (digits_val ip) + of_nat (digits_val fp) / 10 ^ length fp)
           else None))"

text \<open>
  A magnitude at or above \<open>2^1024 - 2^970\<close> rounds to \<open>Infinity\<close> in binary64.
\<close>

definition overflows :: "rat \<Rightarrow> bool" where
  "overflows q = (2 ^ 1024 - 2 ^ 970 \<le> q)"

text \<open>
  \<open>Number(s)\<close> for a string \<open>s\<close> of digits, \<open>.\<close> and \<open>-\<close> (the only strings
  \<open>parseNumber\<close> converts): the empty string is \<open>0\<close>, a string outside the numeric
  grammar is \<open>NaN\<close>.
\<close>

definition js_Number :: "string \<Rightarrow> jsnum" where
  "js_Number s =
     (case s of
        [] \<Rightarrow> Fin 0
      | c # t \<Rightarrow>
          (if c = CHR ''-''
           then (case unsigned_decimal t of
                   None \<Rightarrow> NaN
                 | Some q \<Rightarrow> if overflows q then NegInf else Fin (- q))
           else (case unsigned_decimal s of
                   None \<Rightarrow> NaN
                 | Some q \<Rightarrow> if overflows q then PosInf else Fin q)))"

subsection \<open>\<open>parseNumber\<close>\<close>

text \<open>
  \<open>src/app/page.tsx\<close>, lines 18-23:
  \<^verbatim>\<open>
  function parseNumber(x: any) {
    if (x == null) return null;
    if (typeof x === "number") return x;
    const v = Number(String(x).replace(/[^0-9.\-]/g, ""));
    return Number.isFinite(v) ? v : null;
  }
  \<close>
\<close>

fun parseNumber :: "jsval \<Rightarrow> jsval" where
  "parseNumber JUndefined = JNull"
| "parseNumber JNull = JNull"
| "parseNumber (JNum n) = JNum n"
| "parseNumber (JStr s) =
     (let v = js_Number (strip_non_numeric s) in
      if isFinite v then JNum v else JNull)"

text \<open>
  The earlier JavaScript version of the page (\<open>src/unnamed/part_000\<close>, lines 217-224)
  tests the cleaned string for emptiness before converting it:
  \<^verbatim>\<open>
  function parseNumber(x) {
    if (x === null || x === undefined) return null;
    if (typeof x === "number") return x;
    const cleaned = String(x).replace(/[^0-9.\-]/g, "");
    if (cleaned === "") return null;
    const v = Number(cleaned);
    return Number.isFinite(v) ? v : null;
  }
  \<close>
\<close>

fun parseNumber_js :: "jsval \<Rightarrow> jsval" where
  "parseNumber_js JUndefined = JNull"
| "parseNumber_js JNull = JNull"
| "parseNumber_js (JNum n) = JNum n"
| "parseNumber_js (JStr s) =
     (let cleaned = strip_non_numeric s in
      if cleaned = [] then JNull
      else (let v = js_Number cleaned in
            if isFinite v then JNum v else JNull))"


section \<open>Rows\<close>

text \<open>
  A raw row is what Papa Parse yields with \<open>header: true\<close>: an object from column
  names to strings, kept as its list of own properties in key order. A column that
  the row does not have reads as \<open>undefined\<close>.
\<close>

type_synonym RawRow = "(string \<times> string) list"

definition column :: "RawRow \<Rightarrow> string \<Rightarrow> jsval" where
  "column r k = (case map_of r k of None \<Rightarrow> JUndefined | Some s \<Rightarrow> JStr s)"

text \<open>The operator \<open>a ?? b\<close>: \<open>b\<close> when \<open>a\<close> is \<open>null\<close> or \<open>undefined\<close>.\<close>

fun nullish :: "jsval \<Rightarrow> jsval \<Rightarrow> jsval" where
  "nullish JUndefined b = b"
| "nullish JNull b = b"
| "nullish a b = a"

text \<open>
  The string that a chain \<open>r[..] ?? r[..] ?? ""\<close> over a raw row evaluates to: the
  cells of a raw row are strings, so such a chain yields nothing but a string.
\<close>

fun str_of :: "jsval \<Rightarrow> string" where
  "str_of (JStr s) = s"
| "str_of v = []"

text \<open>
  The type \<open>Row\<close> of \<open>page.tsx\<close> (lines 57-62): the columns of the raw row, spread
  into the object, and the twelve typed fields \<open>__title\<close> ... \<open>__releaseDate\<close>. A date
  is its time value in milliseconds since the epoch.
\<close>

record Row =
  src :: RawRow
  uu_title :: string
  uu_type :: string
  uu_url :: string
  uu_genres :: "string list"
  uu_directors :: string
  uu_tconst :: string
  uu_yourRating :: jsval
  uu_imdbRating :: jsval
  uu_runtime :: jsval
  uu_year :: jsval
  uu_dateRated :: "int option"
  uu_releaseDate :: "int option"

subsection \<open>String helpers\<close>

text \<open>
  White space removed by \<open>trim\<close>, within the one-byte characters: tab, line feed,
  vertical tab, form feed, carriage return and space.
\<close>

definition is_space :: "char \<Rightarrow> bool" where
  "is_space c = (of_char c \<in> {9::nat, 10, 11, 12, 13, 32})"

definition trim :: "string \<Rightarrow> string" where
  "trim s = rev (dropWhile is_space (rev (dropWhile is_space s)))"

text \<open>\<open>s.split(",")\<close>: the pieces between commas; one piece for a string with none.\<close>

fun split_comma :: "string \<Rightarrow> string list" where
  "split_comma [] = [ [] ]"
| "split_comma (c # cs) =
     (if c = CHR '','' then [] # split_comma cs
      else (case split_comma cs of
              [] \<Rightarrow> [ [c] ]
            | p # ps \<Rightarrow> (c # p) # ps))"

text \<open>\<open>toLowerCase\<close> on the letters \<open>A\<close> to \<open>Z\<close>.\<close>

definition lower_char :: "char \<Rightarrow> char" where
  "lower_char c =
     (if 65 \<le> (of_char c :: nat) \<and> (of_char c :: nat) \<le> 90
      then char_of (of_char c + (32::nat)) else c)"

definition toLowerCase :: "string \<Rightarrow> string" where
  "toLowerCase s = map lower_char s"

text \<open>\<open>t.includes(q)\<close>: \<open>q\<close> occurs in \<open>t\<close> as a contiguous substring.\<close>

fun str_includes :: "string \<Rightarrow> string \<Rightarrow> bool" where
  "str_includes [] q = (q = [])"
| "str_includes (c # cs) q = (take (length q) (c # cs) = q \<or> str_includes cs q)"

definition digit_char :: "nat \<Rightarrow> char" where
  "digit_char d = char_of (48 + d)"

text \<open>\<open>String(i)\<close> for an array index \<open>i\<close>.\<close>

fun String_nat :: "nat \<Rightarrow> string" where
  "String_nat n =
     (if n < 10 then [digit_char n]
      else String_nat (n div 10) @ [digit_char (n mod 10)])"

declare String_nat.simps [simp del]

subsection \<open>Field parsers\<close>

text \<open>
  \<open>parseDateMaybe\<close> (line 24). How \<open>new Date(x)\<close> reads a string is left to the
  browser, so the date parser \<open>dp\<close> is a parameter: \<open>None\<close> is an invalid date. The
  empty string, \<open>0\<close>, \<open>NaN\<close>, \<open>null\<close> and \<open>undefined\<close> are falsy. A number is
  taken as a time value, cut to an integer, and is invalid beyond \<open>8.64e15\<close>.
  \<^verbatim>\<open>
  function parseDateMaybe(x: any) {
    if (!x) return null; const d = new Date(x);
    return isNaN(d.getTime()) ? null : d; }
  \<close>
\<close>

fun parseDateMaybe :: "(string \<Rightarrow> int option) \<Rightarrow> jsval \<Rightarrow> int option" where
  "parseDateMaybe dp (JStr s) = (if s = [] then None else dp s)"
| "parseDateMaybe dp (JNum (Fin x)) =
     (if x = 0 \<or> 8640000000000000 < \<bar>x\<bar> then None
      else Some (if 0 \<le> x then \<lfloor>x\<rfloor> else \<lceil>x\<rceil>))"
| "parseDateMaybe dp v = None"

text \<open>
  \<open>splitGenres\<close> (line 25), on the string it is called with:
  \<^verbatim>\<open>
  function splitGenres(str: any) {
    return !str ? [] : String(str).split(",").map((g) => g.trim()).filter(Boolean); }
  \<close>
\<close>

definition splitGenres :: "string \<Rightarrow> string list" where
  "splitGenres str =
     (if str = [] then []
      else filter (\<lambda>g. g \<noteq> []) (map trim (split_comma str)))"

subsection \<open>Normalization (lines 128-143)\<close>

definition normalize :: "(string \<Rightarrow> int option) \<Rightarrow> RawRow \<Rightarrow> nat \<Rightarrow> Row" where
  "normalize dp r i =
     (let yourRating = parseNumber
            (nullish (column r ''Your Rating'') (nullish (column r ''your rating'') (column r ''rating'')));
          imdbRating = parseNumber (nullish (column r ''IMDb Rating'') (column r ''imdb rating''));
          runtime = parseNumber (nullish (column r ''Runtime (mins)'') (column r ''runtime''));
          year = parseNumber (nullish (column r ''Year'') (column r ''year''));
          dateRated = parseDateMaybe dp
            (nullish (column r ''Date Rated'') (nullish (column r ''date rated'') (column r ''rated_at'')));
          releaseDate = parseDateMaybe dp
            (nullish (column r ''Release Date'') (column r ''release date''));
          title = nullish (column r ''Title'') (nullish (column r ''title'') (JStr []));
          type = nullish (column r ''Title Type'')
                   (nullish (column r ''title type'') (nullish (column r ''type'') (JStr [])));
          url = nullish (column r ''URL'') (nullish (column r ''url'') (JStr []));
          genres = splitGenres
            (str_of (nullish (column r ''Genres'') (nullish (column r ''genres'') (JStr []))));
          directors = nullish (column r ''Directors'') (nullish (column r ''directors'') (JStr []));
          tconst = nullish (column r ''Const'') (nullish (column r ''const'') (JStr (String_nat i)))
      in \<lparr> src = r, uu_title = str_of title, uu_type = str_of type, uu_url = str_of url,
           uu_genres = genres, uu_directors = str_of directors, uu_tconst = str_of tconst,
           uu_yourRating = yourRating, uu_imdbRating = imdbRating, uu_runtime = runtime,
           uu_year = year, uu_dateRated = dateRated, uu_releaseDate = releaseDate \<rparr>)"

text \<open>\<open>rawRows.map((r, i) => ...)\<close>: each row with its index.\<close>

definition rows :: "(string \<Rightarrow> int option) \<Rightarrow> RawRow list \<Rightarrow> Row list" where
  "rows dp rawRows = map (\<lambda>(r, i). normalize dp r i) (zip rawRows [0 ..< length rawRows])"

subsection \<open>The normalized row as an object\<close>

text \<open>
  A value stored in a normalized row: a primitive, the array of genres, or a
  \<open>Date\<close>.
\<close>

datatype cell = Prim jsval | Arr "string list" | DateObj int

definition date_cell :: "int option \<Rightarrow> cell" where
  "date_cell d = (case d of None \<Rightarrow> Prim JNull | Some t \<Rightarrow> DateObj t)"

text \<open>The twelve keys written after the spread, in the order of the object literal.\<close>

definition derived :: "Row \<Rightarrow> (string \<times> cell) list" where
  "derived r =
     [(''__title'', Prim (JStr (uu_title r))), (''__type'', Prim (JStr (uu_type r))),
      (''__url'', Prim (JStr (uu_url r))), (''__genres'', Arr (uu_genres r)),
      (''__directors'', Prim (JStr (uu_directors r))), (''__tconst'', Prim (JStr (uu_tconst r))),
      (''__yourRating'', Prim (uu_yourRating r)), (''__imdbRating'', Prim (uu_imdbRating r)),
      (''__runtime'', Prim (uu_runtime r)), (''__year'', Prim (uu_year r)),
      (''__dateRated'', date_cell (uu_dateRated r)),
      (''__releaseDate'', date_cell (uu_releaseDate r))]"

definition derived_keys :: "string list" where
  "derived_keys =
     [''__title'', ''__type'', ''__url'', ''__genres'', ''__directors'', ''__tconst'',
      ''__yourRating'', ''__imdbRating'', ''__runtime'', ''__year'', ''__dateRated'',
      ''__releaseDate'']"

text \<open>
  The own properties of the object \<open>{ ...r, __title: title, ... }\<close>, in key order:
  the spread copies the raw columns, then each of the twelve keys is written, in
  place when the row already has a column of that name, at the end otherwise.
\<close>

definition entries :: "Row \<Rightarrow> (string \<times> cell) list" where
  "entries r =
     fold (\<lambda>kv obj. AList.update (fst kv) (snd kv) obj) (derived r)
       (map (\<lambda>kv. (fst kv, Prim (JStr (snd kv)))) (src r))"


section \<open>Filtering (lines 146-166)\<close>

text \<open>
  \<open>fin v\<close> is the number \<open>v\<close> when \<open>Number.isFinite(v)\<close> holds, and \<open>None\<close> when it
  does not.
\<close>

fun fin :: "jsval \<Rightarrow> rat option" where
  "fin (JNum (Fin q)) = Some q"
| "fin v = None"

text \<open>
  The filter controls of lines 75-80 (\<open>fq\<close> is the title query \<open>q\<close>). The thresholds
  are numbers of the component state; they are finite, being set from literals,
  from \<open>allYears\<close> and from non-null results of \<open>parseNumber\<close>.
\<close>

record FilterState =
  fq :: string
  minYear :: rat
  maxYear :: rat
  minYourRating :: rat
  titleType :: string
  genreFilter :: "string list"

text \<open>
  \<^verbatim>\<open>
  const allYears = useMemo(() => {
    const ys = rows.map(r => r.__year).filter((x): x is number => Number.isFinite(x));
    return ys.length ? [Math.min(...ys), Math.max(...ys)] : [1900, 2100];
  }, [rows]);
  \<close>
\<close>

definition allYears :: "Row list \<Rightarrow> rat \<times> rat" where
  "allYears rs =
     (case List.map_filter (\<lambda>r. fin (uu_year r)) rs of
        [] \<Rightarrow> (1900, 2100)
      | y # ys \<Rightarrow> (fold min ys y, fold max ys y))"

text \<open>
  The predicate of \<open>rows.filter(r => ...)\<close> in lines 158-165, with
  \<open>qLower = q.trim().toLowerCase()\<close>.
\<close>

definition matches :: "FilterState \<Rightarrow> Row \<Rightarrow> bool" where
  "matches fs r =
     (let qLower = toLowerCase (trim (fq fs));
          yearOk = (case fin (uu_year r) of
                      None \<Rightarrow> True
                    | Some y \<Rightarrow> minYear fs \<le> y \<and> y \<le> maxYear fs);
          typeOk = (titleType fs = ''all'' \<or> uu_type r = titleType fs);
          yourOk = (case fin (uu_yourRating r) of
                      None \<Rightarrow> True
                    | Some y \<Rightarrow> minYourRating fs \<le> y);
          textOk = (qLower = [] \<or> str_includes (toLowerCase (uu_title r)) qLower);
          genresOk = (genreFilter fs = [] \<or>
                      list_ex (\<lambda>g. g \<in> set (genreFilter fs)) (uu_genres r))
      in yearOk \<and> typeOk \<and> yourOk \<and> textOk \<and> genresOk)"

definition filtered :: "FilterState \<Rightarrow> Row list \<Rightarrow> Row list" where
  "filtered fs rs = filter (matches fs) rs"

text \<open>
  The filter state with every control at its default: the initial values of lines
  75-80, with the year range that the effect of line 150 sets from the loaded rows.
\<close>

definition defaultFilter :: "Row list \<Rightarrow> FilterState" where
  "defaultFilter rs =
     \<lparr> fq = [], minYear = fst (allYears rs), maxYear = snd (allYears rs),
       minYourRating = 0, titleType = ''all'', genreFilter = [] \<rparr>"

section \<open>Streaks and gaps (lines 31-43)\<close>

text \<open>
  Local time is taken at a fixed offset \<open>tz\<close> (milliseconds east of UTC); daylight
  saving changes are not modelled. In such a zone
  \<open>new Date(d.getFullYear(), d.getMonth(), d.getDate()).getTime()\<close> is the start
  of the local day of \<open>d\<close> (for years from 100 on: the constructor reads a year
  below 100 as a year of the twentieth century).
\<close>

definition dayMs :: int where
  "dayMs = 86400000"

definition localMidnight :: "int \<Rightarrow> int \<Rightarrow> int" where
  "localMidnight tz t = t - (t + tz) mod dayMs"

text \<open>A \<open>Set\<close> of the day starts, then \<open>Array.from(set).sort((a,b)=>a-b)\<close>.\<close>

definition uniqueDays :: "int \<Rightarrow> int list \<Rightarrow> int list" where
  "uniqueDays tz dates = sort (remdups (map (localMidnight tz) dates))"

record Streak =
  len :: nat
  startDay :: "int option"
  endDay :: "int option"

text \<open>
  The loop of \<open>longestStreak\<close> from \<open>i = 1\<close>: \<open>prev\<close> is \<open>days[i-1]\<close>, the list
  holds \<open>days[i]\<close> onwards. At the end of the list the test after the loop is made,
  where \<open>prev\<close> is the last day. The quotient \<open>diff\<close> is computed exactly; the time
  values are whole milliseconds, so the test against \<open>1e-6\<close> is not affected by the
  rounding of the division.
\<close>

fun streak_loop :: "Streak \<Rightarrow> int \<Rightarrow> nat \<Rightarrow> int \<Rightarrow> int list \<Rightarrow> Streak" where
  "streak_loop best curStart curLen prev [] =
     (if curLen > len best
      then \<lparr> len = curLen, startDay = Some curStart, endDay = Some prev \<rparr>
      else best)"
| "streak_loop best curStart curLen prev (cur # rest) =
     (let diff = (of_int (cur - prev) :: rat) / of_int dayMs in
      if \<bar>diff - 1\<bar> < 1 / 1000000
      then streak_loop best curStart (curLen + 1) cur rest
      else streak_loop
             (if curLen > len best
              then \<lparr> len = curLen, startDay = Some curStart, endDay = Some prev \<rparr>
              else best)
             cur 1 cur rest)"

definition longestStreak :: "int \<Rightarrow> int list \<Rightarrow> Streak" where
  "longestStreak tz dates =
     (case uniqueDays tz dates of
        [] \<Rightarrow> \<lparr> len = 0, startDay = None, endDay = None \<rparr>
      | d # ds \<Rightarrow> streak_loop \<lparr> len = 1, startDay = Some d, endDay = Some d \<rparr> d 1 d ds)"

text \<open>\<open>Math.round\<close>: the nearest integer, a half rounding up.\<close>

definition Math_round :: "rat \<Rightarrow> int" where
  "Math_round x = \<lfloor>x + 1 / 2\<rfloor>"

record Gap =
  days :: int
  gapStart :: "int option"
  gapEnd :: "int option"

fun gap_loop :: "Gap \<Rightarrow> int \<Rightarrow> int list \<Rightarrow> Gap" where
  "gap_loop best prev [] = best"
| "gap_loop best prev (cur # rest) =
     (let gap = Math_round ((of_int (cur - prev) :: rat) / of_int dayMs) in
      gap_loop
        (if gap > days best
         then \<lparr> days = gap, gapStart = Some prev, gapEnd = Some cur \<rparr>
         else best)
        cur rest)"

definition longestGap :: "int \<Rightarrow> int list \<Rightarrow> Gap" where
  "longestGap tz dates =
     (case uniqueDays tz dates of
        d0 # d1 # ds \<Rightarrow>
          gap_loop \<lparr> days = 0, gapStart = Some d0, gapEnd = Some d1 \<rparr> d0 (d1 # ds)
      | _ \<Rightarrow> \<lparr> days = 0, gapStart = None, gapEnd = None \<rparr>)"

text \<open>
  \<open>const dates = filtered.map(r => r.__dateRated).filter(Boolean)\<close> (line 177).
\<close>

definition ratedDates :: "Row list \<Rightarrow> int list" where
  "ratedDates rs = List.map_filter uu_dateRated rs"

text \<open>
  The time value of midnight UTC of a calendar day of the Gregorian calendar
  (month 1 to 12), used to write dates down.
\<close>

definition daysFromCivil :: "int \<Rightarrow> int \<Rightarrow> int \<Rightarrow> int" where
  "daysFromCivil y m d =
     (let y' = (if m \<le> 2 then y - 1 else y);
          era = y' div 400;
          yoe = y' - era * 400;
          mp = (m + 9) mod 12;
          doy = (153 * mp + 2) div 5 + d - 1;
          doe = yoe * 365 + yoe div 4 - yoe div 100 + doy
      in era * 146097 + doe - 719468)"

definition utcDay :: "int \<Rightarrow> int \<Rightarrow> int \<Rightarrow> int" where
  "utcDay y m d = daysFromCivil y m d * dayMs"


section \<open>Top director (lines 186-195)\<close>

text \<open>
  \<open>dirMap\<close> is a \<open>Map\<close> from director name to \<open>{sum, n}\<close>; a \<open>Map\<close> iterates in the
  order in which its keys were first set, so it is an association list.
\<close>

type_synonym DirMap = "(string \<times> rat \<times> nat) list"

text \<open>\<open>r.__directors.split(",").map(d=>d.trim()).filter(Boolean)\<close>.\<close>

definition directorNames :: "string \<Rightarrow> string list" where
  "directorNames s = filter (\<lambda>d. d \<noteq> []) (map trim (split_comma s))"

text \<open>
  The body of the inner \<open>forEach\<close>:
  \<^verbatim>\<open>
  const m = dirMap.get(d) || {sum:0,n:0};
  if (Number.isFinite(r.__yourRating)) {
    m.sum += r.__yourRating as number; m.n += 1; dirMap.set(d,m); }
  \<close>
\<close>

definition credit :: "jsval \<Rightarrow> string \<Rightarrow> DirMap \<Rightarrow> DirMap" where
  "credit rating d dm =
     (let m = (case map_of dm d of None \<Rightarrow> (0, 0) | Some m \<Rightarrow> m) in
      case fin rating of
        None \<Rightarrow> dm
      | Some y \<Rightarrow> AList.update d (fst m + y, snd m + 1) dm)"

definition dirMap_row :: "Row \<Rightarrow> DirMap \<Rightarrow> DirMap" where
  "dirMap_row r dm =
     (if uu_directors r = [] then dm
      else fold (credit (uu_yourRating r)) (directorNames (uu_directors r)) dm)"

definition dirMap :: "Row list \<Rightarrow> DirMap" where
  "dirMap rs = fold dirMap_row rs []"

record TopDirector =
  td_director :: string
  td_avg :: rat
  td_n :: nat

text \<open>
  \<^verbatim>\<open>
  dirMap.forEach((m,d) => { if (m.n>=3){ const avg=m.sum/m.n;
    if (!topDirector || avg>topDirector.avg) topDirector={director:d,avg,n:m.n}; }});
  \<close>
\<close>

definition top_step :: "string \<times> rat \<times> nat \<Rightarrow> TopDirector option \<Rightarrow> TopDirector option" where
  "top_step e cur =
     (case e of (d, s, k) \<Rightarrow>
        if k \<ge> 3
        then (let a = s / of_nat k in
              case cur of
                None \<Rightarrow> Some \<lparr> td_director = d, td_avg = a, td_n = k \<rparr>
              | Some t \<Rightarrow>
                  if a > td_avg t then Some \<lparr> td_director = d, td_avg = a, td_n = k \<rparr>
                  else Some t)
        else cur)"

definition topDirector :: "Row list \<Rightarrow> TopDirector option" where
  "topDirector rs = fold top_step (dirMap rs) None"

section \<open>Rating histogram (lines 215-219)\<close>

datatype error = TypeError

text \<open>A bin is \<open>{bucket, count}\<close>.\<close>

type_synonym Bins = "(nat \<times> nat) list"

definition emptyBins :: Bins where
  "emptyBins = map (\<lambda>i. (i + 1, 0)) [0 ..< 10]"

text \<open>
  \<^verbatim>\<open>
  if (Number.isFinite(r.__yourRating) && r.__yourRating >= 1 && r.__yourRating <= 10) {
    bins[r.__yourRating - 1].count += 1; }
  \<close>
  An index that is not an integer reads \<open>undefined\<close> from the array, and the
  update of \<open>.count\<close> on it throws a \<open>TypeError\<close>.
\<close>

definition hist_step :: "Row \<Rightarrow> Bins \<Rightarrow> error + Bins" where
  "hist_step r bins =
     (case fin (uu_yourRating r) of
        None \<Rightarrow> Inr bins
      | Some y \<Rightarrow>
          if 1 \<le> y \<and> y \<le> 10
          then (if of_int \<lfloor>y\<rfloor> = y
                then (let i = nat (\<lfloor>y\<rfloor> - 1) in
                      Inr (bins[i := (fst (bins ! i), snd (bins ! i) + 1)]))
                else Inl TypeError)
          else Inr bins)"

fun hist_loop :: "Row list \<Rightarrow> Bins \<Rightarrow> error + Bins" where
  "hist_loop [] bins = Inr bins"
| "hist_loop (r # rs) bins =
     (case hist_step r bins of
        Inl e \<Rightarrow> Inl e
      | Inr bins' \<Rightarrow> hist_loop rs bins')"

definition ratingHistogram :: "Row list \<Rightarrow> error + Bins" where
  "ratingHistogram rs = hist_loop rs emptyBins"

text \<open>
  The histogram as the specification words it: ten buckets \<open>1..10\<close>, a record
  counted in bucket \<open>round(yourRating)\<close> when its rating is a number in \<open>[1,10]\<close>.
\<close>

definition spec_contributes :: "nat \<Rightarrow> Row \<Rightarrow> bool" where
  "spec_contributes b r =
     (case fin (uu_yourRating r) of
        None \<Rightarrow> False
      | Some y \<Rightarrow> 1 \<le> y \<and> y \<le> 10 \<and> Math_round y = int b)"

definition spec_histogram :: "Row list \<Rightarrow> Bins" where
  "spec_histogram rs = map (\<lambda>b. (b, length (filter (spec_contributes b) rs))) [1 ..< 11]"

text \<open>A row that carries only a rating.\<close>

definition rated :: "rat \<Rightarrow> Row" where
  "rated y =
     \<lparr> src = [], uu_title = [], uu_type = [], uu_url = [], uu_genres = [],
       uu_directors = [], uu_tconst = [], uu_yourRating = JNum (Fin y),
       uu_imdbRating = JNull, uu_runtime = JNull, uu_year = JNull,
       uu_dateRated = None, uu_releaseDate = None \<rparr>"

section \<open>Pagination (lines 265-266)\<close>

text \<open>
  \<open>Math.max(1, Math.ceil(sorted.length / pageSize))\<close>. A page size of zero divides
  by zero: \<open>0/0\<close> is \<open>NaN\<close> and \<open>n/0\<close> is \<open>Infinity\<close>, which \<open>Math.ceil\<close> and
  \<open>Math.max\<close> hand on.
\<close>

definition totalPages :: "nat \<Rightarrow> nat \<Rightarrow> jsnum" where
  "totalPages count pageSize =
     (if pageSize = 0 then (if count = 0 then NaN else PosInf)
      else Fin (max 1 (of_int \<lceil>(of_nat count :: rat) / of_nat pageSize\<rceil>)))"

text \<open>The comparison \<open>a > b\<close> of two numbers.\<close>

fun js_gt :: "jsnum \<Rightarrow> jsnum \<Rightarrow> bool" where
  "js_gt NaN b = False"
| "js_gt a NaN = False"
| "js_gt NegInf b = False"
| "js_gt a NegInf = True"
| "js_gt a PosInf = False"
| "js_gt PosInf b = True"
| "js_gt (Fin x) (Fin y) = (x > y)"

text \<open>
  The effect \<open>if (page > totalPages) setPage(totalPages)\<close>: the page number after
  it has run.
\<close>

definition clampPage :: "jsnum \<Rightarrow> jsnum \<Rightarrow> jsnum" where
  "clampPage page tp = (if js_gt page tp then tp else page)"

section \<open>CSV export (lines 27-30 and 593)\<close>

text \<open>
  Papa Parse is a library outside the repository. Its \<open>unparse\<close> and \<open>parse\<close> are
  taken at the level of the table they write and read: for an array of objects
  \<open>unparse\<close> takes the columns from the keys of the first object and writes, for
  each object, the value under each column (the empty string for a missing one);
  \<open>parse\<close> with \<open>header: true\<close> makes of each line an object from the header names
  to the cells, taken here in header order (an object lists column names that are
  array indices first). Quoting and line breaks are inside the library. How a
  value that is not a string is written is the parameter \<open>render\<close>.
\<close>

type_synonym Obj = "(string \<times> cell) list"

type_synonym Table = "string list \<times> string list list"

definition unparse :: "(cell \<Rightarrow> string) \<Rightarrow> Obj list \<Rightarrow> Table" where
  "unparse render objs =
     (let fields = (case objs of [] \<Rightarrow> [] | ob # _ \<Rightarrow> map fst ob) in
      (fields,
       map (\<lambda>ob. map (\<lambda>f. case map_of ob f of None \<Rightarrow> [] | Some c \<Rightarrow> render c) fields) objs))"

definition parse_table :: "Table \<Rightarrow> RawRow list" where
  "parse_table t = map (\<lambda>cells. zip (fst t) cells) (snd t)"

text \<open>
  \<open>downloadCSVFromRows(filtered)\<close>: the CSV written is
  \<open>Papa.unparse(rows)\<close> of the row objects it is given.
\<close>

definition downloadCSVFromRows :: "(cell \<Rightarrow> string) \<Rightarrow> Row list \<Rightarrow> Table" where
  "downloadCSVFromRows render rs = unparse render (map entries rs)"

text \<open>A rendering of cells that writes a string as it is.\<close>

definition render_plain :: "cell \<Rightarrow> string" where
  "render_plain c = (case c of Prim (JStr s) \<Rightarrow> s | Arr gs \<Rightarrow> concat gs | _ \<Rightarrow> [])"


section \<open>Auxiliary notions used to state the properties\<close>

text \<open>
  The credits of the top-director tally, in the order in which the two nested
  loops meet them: one pair of director name and rating for each name in the
  directors list of each row whose rating is a finite number.
\<close>

definition creditList :: "Row list \<Rightarrow> (string \<times> rat) list" where
  "creditList rs =
     concat (map (\<lambda>r. case fin (uu_yourRating r) of
                         None \<Rightarrow> []
                       | Some y \<Rightarrow> map (\<lambda>d. (d, y)) (directorNames (uu_directors r))) rs)"

text \<open>One credit added to the tally: the body of the inner loop for a finite rating.\<close>

definition addCredit :: "string \<times> rat \<Rightarrow> DirMap \<Rightarrow> DirMap" where
  "addCredit c dm =
     (let m = (case map_of dm (fst c) of None \<Rightarrow> (0, 0) | Some m \<Rightarrow> m) in
      AList.update (fst c) (fst m + snd c, snd m + 1) dm)"

text \<open>An entry of the tally qualifies with three credits; its average; its result.\<close>

definition qualifies :: "string \<times> rat \<times> nat \<Rightarrow> bool" where
  "qualifies e = (3 \<le> snd (snd e))"

definition average :: "string \<times> rat \<times> nat \<Rightarrow> rat" where
  "average e = fst (snd e) / of_nat (snd (snd e))"

definition asTop :: "string \<times> rat \<times> nat \<Rightarrow> TopDirector" where
  "asTop e = \<lparr> td_director = fst e, td_avg = average e, td_n = snd (snd e) \<rparr>"

text \<open>What a list of credits amounts to for one name: the sum and the number of its ratings.\<close>

definition tallied :: "(string \<times> rat) list \<Rightarrow> string \<Rightarrow> (rat \<times> nat) option" where
  "tallied cl d =
     (let ys = map snd (filter (\<lambda>c. fst c = d) cl) in
      if ys = [] then None else Some (sum_list ys, length ys))"

text \<open>The ratings credited to one director.\<close>

definition credits :: "Row list \<Rightarrow> string \<Rightarrow> rat list" where
  "credits rs d = map snd (filter (\<lambda>c. fst c = d) (creditList rs))"

definition mean :: "rat list \<Rightarrow> rat" where
  "mean ys = sum_list ys / of_nat (length ys)"

text \<open>The position at which a value first occurs in a list (its length when absent).\<close>

definition first_index :: "'a list \<Rightarrow> 'a \<Rightarrow> nat" where
  "first_index xs x = length (takeWhile (\<lambda>y. y \<noteq> x) xs)"

text \<open>The position of the first credit of a director.\<close>

definition firstCredit :: "Row list \<Rightarrow> string \<Rightarrow> nat" where
  "firstCredit rs d = first_index (map fst (creditList rs)) d"

text \<open>A row that carries only a directors list and a rating.\<close>

definition directed :: "string \<Rightarrow> rat \<Rightarrow> Row" where
  "directed d y = (rated y)\<lparr> uu_directors := d \<rparr>"

text \<open>A column name that begins with two underscores.\<close>

definition dunder :: "string \<Rightarrow> bool" where
  "dunder k = (take 2 k = ''__'')"

text \<open>The titles of a list of rows.\<close>

definition titles :: "Row list \<Rightarrow> string list" where
  "titles rs = map uu_title rs"

text \<open>
  A rating that the histogram can index with: not a finite number, or outside
  \<open>[1,10]\<close>, or a whole number.
\<close>

definition wholeRating :: "Row \<Rightarrow> bool" where
  "wholeRating r =
     (case fin (uu_yourRating r) of
        None \<Rightarrow> True
      | Some y \<Rightarrow> if 1 \<le> y \<and> y \<le> 10 then of_int \<lfloor>y\<rfloor> = y else True)"

text \<open>Bins that hold the count \<open>c b\<close> in bucket \<open>b\<close>.\<close>

definition binsOf :: "(nat \<Rightarrow> nat) \<Rightarrow> Bins" where
  "binsOf c = map (\<lambda>b. (b, c b)) [1 ..< 11]"

text \<open>A rating that is not a finite number, or is not negative.\<close>

definition nonNegRating :: "Row \<Rightarrow> bool" where
  "nonNegRating r = (case fin (uu_yourRating r) of None \<Rightarrow> True | Some y \<Rightarrow> 0 \<le> y)"

text \<open>
  A filter state with every control neutral for the loaded rows \<open>rs\<close>: a blank
  query, the year range from the least to the greatest year of \<open>rs\<close>, the minimum
  rating \<open>0\<close>, the type \<open>all\<close> and no genre.
\<close>

definition neutral :: "Row list \<Rightarrow> FilterState \<Rightarrow> bool" where
  "neutral rs fs =
     (trim (fq fs) = [] \<and> minYear fs = fst (allYears rs) \<and> maxYear fs = snd (allYears rs)
      \<and> minYourRating fs = 0 \<and> titleType fs = ''all'' \<and> genreFilter fs = [])"

text \<open>A date parser that reads no string as a date, for rows without dates.\<close>

definition noDates :: "string \<Rightarrow> int option" where
  "noDates s = None"

text \<open>
  The records that credit a director: those with a finite rating whose directors
  list contains the name.
\<close>

definition creditingRecords :: "Row list \<Rightarrow> string \<Rightarrow> Row list" where
  "creditingRecords rs d =
     filter (\<lambda>r. d \<in> set (directorNames (uu_directors r))
                \<and> Number_isFinite (uu_yourRating r)) rs"

section \<open>Properties of \<open>parseNumber\<close>\<close>

lemma parseNumber_string_null_iff:
  "parseNumber (JStr s) = JNull \<longleftrightarrow> \<not> isFinite (js_Number (strip_non_numeric s))"
  by (simp add: Let_def)

lemma parseNumber_js_string_null_iff:
  "parseNumber_js (JStr s) = JNull \<longleftrightarrow>
     strip_non_numeric s = [] \<or> \<not> isFinite (js_Number (strip_non_numeric s))"
  by (simp add: Let_def)

lemma js_Number_empty: "js_Number [] = Fin 0"
  by (simp add: js_Number_def)

lemma parseNumber_versions_differ_iff:
  "parseNumber (JStr s) \<noteq> parseNumber_js (JStr s) \<longleftrightarrow> strip_non_numeric s = []"
  by (auto simp: Let_def js_Number_empty)

lemma strip_empty: "strip_non_numeric [] = []"
  by (simp add: strip_non_numeric_def)

lemma strip_NA: "strip_non_numeric ''N/A'' = []"
  by (simp add: strip_non_numeric_def keeps_def is_digit_def)

lemma strip_7_8: "strip_non_numeric ''7-8'' = ''7-8''"
  by (simp add: strip_non_numeric_def keeps_def is_digit_def)

lemma js_Number_7_8: "js_Number ''7-8'' = NaN"
  by (simp add: js_Number_def unsigned_decimal_def is_digit_def)

text \<open>
  C1 (fails in \<open>page.tsx\<close>). The claim wants \<open>null\<close> for a source value whose stripped
  string is empty, such as \<open>N/A\<close>. \<open>parseNumber\<close> of \<open>page.tsx\<close> converts the empty
  string, which is \<open>0\<close>, so the row \<open>{"Your Rating": "N/A"}\<close> is normalized to the
  rating \<open>0\<close>, as is an empty cell; the earlier version of the function, with its test for the empty
  string, returns \<open>null\<close> there. Both return \<open>null\<close> for \<open>7-8\<close>.
\<close>

theorem parseNumber_NA_is_zero:
  "parseNumber (JStr ''N/A'') = JNum (Fin 0)
   \<and> parseNumber (JStr []) = JNum (Fin 0)
   \<and> uu_yourRating (normalize dp [(''Your Rating'', ''N/A'')] i) = JNum (Fin 0)
   \<and> parseNumber_js (JStr ''N/A'') = JNull
   \<and> parseNumber (JStr ''7-8'') = JNull
   \<and> parseNumber_js (JStr ''7-8'') = JNull"
  by (simp add: normalize_def column_def strip_NA strip_7_8 strip_empty js_Number_7_8
      js_Number_empty)

text \<open>
  C10. A number given to \<open>parseNumber\<close> comes back as it is, \<open>NaN\<close> and the
  infinities included: it is never turned into \<open>null\<close>. The same holds of the
  earlier version.
\<close>

theorem parseNumber_number_unchanged:
  "parseNumber (JNum n) = JNum n
   \<and> parseNumber (JNum n) \<noteq> JNull
   \<and> parseNumber (JNum NaN) = JNum NaN
   \<and> parseNumber (JNum PosInf) = JNum PosInf
   \<and> parseNumber (JNum NegInf) = JNum NegInf
   \<and> parseNumber_js (JNum n) = JNum n"
  by simp


section \<open>Pagination\<close>

lemma ceil_pages_cover:
  assumes "0 < ps"
  shows "int n \<le> \<lceil>(of_nat n :: rat) / of_nat ps\<rceil> * int ps"
proof -
  have "(of_nat n :: rat) / of_nat ps \<le> of_int \<lceil>(of_nat n :: rat) / of_nat ps\<rceil>"
    by (rule le_of_int_ceiling)
  then have "(of_nat n :: rat) / of_nat ps * of_nat ps
               \<le> of_int \<lceil>(of_nat n :: rat) / of_nat ps\<rceil> * of_nat ps"
    by (rule mult_right_mono) simp
  then have "(of_nat n :: rat) \<le> of_int \<lceil>(of_nat n :: rat) / of_nat ps\<rceil> * of_nat ps"
    using assms by simp
  then have "(of_int (int n) :: rat) \<le> of_int (\<lceil>(of_nat n :: rat) / of_nat ps\<rceil> * int ps)"
    by simp
  then show ?thesis by (simp only: of_int_le_iff)
qed

lemma ceil_pages_least:
  assumes "0 < ps" and "int n \<le> j * int ps"
  shows "\<lceil>(of_nat n :: rat) / of_nat ps\<rceil> \<le> j"
proof -
  have "(of_int (int n) :: rat) \<le> of_int (j * int ps)"
    using assms(2) by (simp only: of_int_le_iff)
  then have "(of_nat n :: rat) \<le> of_int j * of_nat ps" by simp
  then have "(of_nat n :: rat) / of_nat ps \<le> of_int j"
    using assms(1) by (simp add: pos_divide_le_eq)
  then show ?thesis by (simp add: ceiling_le_iff)
qed

lemma totalPages_pos:
  "0 < ps \<Longrightarrow> totalPages n ps = Fin (of_int (max 1 \<lceil>(of_nat n :: rat) / of_nat ps\<rceil>))"
  by (simp add: totalPages_def)

text \<open>
  C7. For a positive page size the number of pages is \<open>max(1, ceil(count / pageSize))\<close>:
  the least \<open>k \<ge> 1\<close> such that \<open>k\<close> pages of that size hold all the records. The
  effect that follows sets a page number above the total to the total, so that
  after it the page number never exceeds the total.
\<close>

theorem totalPages_clamp:
  assumes "0 < pageSize"
  shows "\<exists>k. totalPages count pageSize = Fin (of_int k)
           \<and> k = max 1 \<lceil>(of_nat count :: rat) / of_nat pageSize\<rceil>
           \<and> 1 \<le> k \<and> int count \<le> k * int pageSize
           \<and> (\<forall>j. 1 \<le> j \<and> int count \<le> j * int pageSize \<longrightarrow> k \<le> j)
           \<and> (\<forall>page. js_gt page (totalPages count pageSize)
                 \<longrightarrow> clampPage page (totalPages count pageSize) = totalPages count pageSize)
           \<and> (\<forall>page. \<not> js_gt (clampPage page (totalPages count pageSize)) (totalPages count pageSize))"
proof -
  let ?c = "\<lceil>(of_nat count :: rat) / of_nat pageSize\<rceil>"
  let ?k = "max 1 ?c"
  have tp: "totalPages count pageSize = Fin (of_int ?k)"
    using assms by (rule totalPages_pos)
  have cover: "int count \<le> ?k * int pageSize"
  proof -
    have "int count \<le> ?c * int pageSize" using assms by (rule ceil_pages_cover)
    also have "\<dots> \<le> ?k * int pageSize" by (rule mult_right_mono) simp_all
    finally show ?thesis .
  qed
  have least: "\<forall>j. 1 \<le> j \<and> int count \<le> j * int pageSize \<longrightarrow> ?k \<le> j"
    using assms by (auto dest: ceil_pages_least)
  have clamp1: "\<forall>page. js_gt page (totalPages count pageSize)
      \<longrightarrow> clampPage page (totalPages count pageSize) = totalPages count pageSize"
    by (simp add: clampPage_def)
  have clamp2: "\<forall>page. \<not> js_gt (clampPage page (totalPages count pageSize)) (totalPages count pageSize)"
    by (simp add: clampPage_def tp)
  show ?thesis
    using tp cover least clamp1 clamp2 by (intro exI[of _ ?k]) simp
qed


theorem totalPages_clamp_witness:
  "(0::nat) < 100 \<and> totalPages 205 100 = Fin 3
   \<and> js_gt (Fin 5) (totalPages 205 100)
   \<and> clampPage (Fin 5) (totalPages 205 100) = Fin 3"
proof -
  have h: "(0::nat) < 100" by simp
  from totalPages_clamp[OF h, of 205] obtain k where
    tp: "totalPages 205 100 = Fin (of_int k)"
    and k: "k = max 1 \<lceil>(of_nat 205 :: rat) / of_nat 100\<rceil>"
    and cl: "\<forall>page. js_gt page (totalPages 205 100)
              \<longrightarrow> clampPage page (totalPages 205 100) = totalPages 205 100"
    by blast
  have k3: "k = 3" by (simp add: k ceiling_eq_iff)
  have gt: "js_gt (Fin 5) (totalPages 205 100)" by (simp add: tp k3)
  have "clampPage (Fin 5) (totalPages 205 100) = totalPages 205 100"
    using cl gt by blast
  then show ?thesis using h gt by (simp add: tp k3)
qed


section \<open>The normalized object\<close>

lemma update_new_key:
  "k \<notin> fst ` set al \<Longrightarrow> AList.update k v al = al @ [(k, v)]"
  by (induction al) auto

lemma dunder_derived_keys: "list_all dunder derived_keys"
  by (simp add: derived_keys_def dunder_def)

lemma map_fst_derived: "map fst (derived r) = derived_keys"
  by (simp add: derived_def derived_keys_def)

lemma distinct_derived_keys: "distinct derived_keys"
  by (simp add: derived_keys_def)

lemma fold_update_new_keys:
  "distinct (map fst kvs) \<Longrightarrow> set (map fst kvs) \<inter> fst ` set al = {}
   \<Longrightarrow> fold (\<lambda>kv ob. AList.update (fst kv) (snd kv) ob) kvs al = al @ kvs"
proof (induction kvs arbitrary: al)
  case Nil
  then show ?case by simp
next
  case (Cons kv kvs)
  have new: "fst kv \<notin> fst ` set al" using Cons.prems(2) by auto
  have step: "AList.update (fst kv) (snd kv) al = al @ [kv]"
    using update_new_key[OF new, of "snd kv"] by simp
  have "fold (\<lambda>kv ob. AList.update (fst kv) (snd kv) ob) kvs (al @ [kv]) = (al @ [kv]) @ kvs"
  proof (rule Cons.IH)
    show "distinct (map fst kvs)" using Cons.prems(1) by simp
    show "set (map fst kvs) \<inter> fst ` set (al @ [kv]) = {}"
      using Cons.prems by auto
  qed
  then show ?case by (simp add: step)
qed

lemma entries_no_dunder:
  assumes "list_all (\<lambda>k. \<not> dunder k) (map fst (src r))"
  shows "entries r = map (\<lambda>kv. (fst kv, Prim (JStr (snd kv)))) (src r) @ derived r"
proof -
  let ?al = "map (\<lambda>kv. (fst kv, Prim (JStr (snd kv)))) (src r)"
  have keys: "fst ` set ?al = set (map fst (src r))" by (force simp: image_iff)
  have "set derived_keys \<inter> set (map fst (src r)) = {}"
    using assms dunder_derived_keys by (auto simp: list_all_iff)
  then have disj: "set (map fst (derived r)) \<inter> fst ` set ?al = {}"
    by (simp only: map_fst_derived keys)
  have "distinct (map fst (derived r))"
    by (simp only: map_fst_derived distinct_derived_keys)
  then show ?thesis
    unfolding entries_def using disj by (rule fold_update_new_keys)
qed

lemma src_normalize: "src (normalize dp r i) = r"
  by (simp add: normalize_def Let_def)

lemma map_of_wrap:
  "map_of (map (\<lambda>kv. (fst kv, Prim (JStr (snd kv)))) r) k = map_option (\<lambda>v. Prim (JStr v)) (map_of r k)"
  by (induction r) auto

text \<open>
  C9. When no column name of the raw row begins with \<open>__\<close>, the normalized object
  is the raw columns, each with its value unchanged, followed by the twelve
  \<open>__\<close> keys: the keys are the raw keys and then the twelve, and every raw column
  reads as before.
\<close>

theorem normalize_keeps_source_columns:
  assumes "list_all (\<lambda>k. \<not> dunder k) (map fst r)"
  shows "entries (normalize dp r i)
           = map (\<lambda>kv. (fst kv, Prim (JStr (snd kv)))) r @ derived (normalize dp r i)
         \<and> map fst (entries (normalize dp r i)) = map fst r @ derived_keys
         \<and> (\<forall>k v. map_of r k = Some v
               \<longrightarrow> map_of (entries (normalize dp r i)) k = Some (Prim (JStr v)))"
proof -
  have e: "entries (normalize dp r i)
           = map (\<lambda>kv. (fst kv, Prim (JStr (snd kv)))) r @ derived (normalize dp r i)"
    using entries_no_dunder[of "normalize dp r i"] assms by (simp add: src_normalize)
  have k: "map fst (entries (normalize dp r i)) = map fst r @ derived_keys"
    by (simp add: e map_fst_derived comp_def)
  have v: "\<forall>k v. map_of r k = Some v
               \<longrightarrow> map_of (entries (normalize dp r i)) k = Some (Prim (JStr v))"
    by (simp add: e map_add_Some_iff map_of_wrap)
  show ?thesis using e k v by blast
qed

theorem normalize_keeps_source_columns_witness:
  "list_all (\<lambda>k. \<not> dunder k) (map fst [(''Title'', ''Heat''), (''Your Rating'', ''8'')])
   \<and> map fst (entries (normalize (\<lambda>s. None) [(''Title'', ''Heat''), (''Your Rating'', ''8'')] 0))
       = [''Title'', ''Your Rating'', ''__title'', ''__type'', ''__url'', ''__genres'',
          ''__directors'', ''__tconst'', ''__yourRating'', ''__imdbRating'', ''__runtime'',
          ''__year'', ''__dateRated'', ''__releaseDate'']
   \<and> map_of (entries (normalize (\<lambda>s. None) [(''Title'', ''Heat''), (''Your Rating'', ''8'')] 0))
         ''Title'' = Some (Prim (JStr ''Heat''))"
proof -
  have h: "list_all (\<lambda>k. \<not> dunder k) (map fst [(''Title'', ''Heat''), (''Your Rating'', ''8'')])"
    by (simp add: dunder_def)
  note t = normalize_keeps_source_columns[OF h, of "\<lambda>s. None" 0]
  have keys: "map fst (entries (normalize (\<lambda>s. None) [(''Title'', ''Heat''), (''Your Rating'', ''8'')] 0))
       = map fst [(''Title'', ''Heat''), (''Your Rating'', ''8'')] @ derived_keys"
    using t by blast
  have "map_of [(''Title'', ''Heat''), (''Your Rating'', ''8'')] ''Title'' = Some ''Heat''"
    by simp
  then have "map_of (entries (normalize (\<lambda>s. None) [(''Title'', ''Heat''), (''Your Rating'', ''8'')] 0))
         ''Title'' = Some (Prim (JStr ''Heat''))"
    using t by blast
  then show ?thesis using h keys by (simp add: derived_keys_def)
qed

lemma map_of_fold_update:
  "map_of (fold (\<lambda>kv ob. AList.update (fst kv) (snd kv) ob) kvs al) k
     = (case map_of (rev kvs) k of None \<Rightarrow> map_of al k | Some v \<Rightarrow> Some v)"
proof (induction kvs arbitrary: al)
  case Nil
  then show ?case by simp
next
  case (Cons kv kvs)
  show ?case
    by (simp add: Cons.IH update_conv' map_add_def split: option.splits)
qed

lemma entries_genres:
  "map_of (entries r) ''__genres'' = Some (Arr (uu_genres r))"
  unfolding entries_def map_of_fold_update by (simp add: derived_def)

lemma splitGenres_nonempty: "list_all (\<lambda>g. g \<noteq> []) (splitGenres s)"
  by (simp add: splitGenres_def list_all_iff)

text \<open>
  C8. \<open>normalize\<close> is a total function of the raw row and the index, with no failing
  branch, and \<open>rows\<close> yields one record for each raw row. The \<open>__genres\<close> property of
  the result is always an array: the pieces of the genres column that are not
  empty, none at all for a row without that column.
\<close>

theorem normalize_genres_sequence:
  "map_of (entries (normalize dp r i)) ''__genres'' = Some (Arr (uu_genres (normalize dp r i)))
   \<and> uu_genres (normalize dp r i)
       = splitGenres (str_of (nullish (column r ''Genres'') (nullish (column r ''genres'') (JStr []))))
   \<and> list_all (\<lambda>g. g \<noteq> []) (uu_genres (normalize dp r i))
   \<and> uu_genres (normalize dp [] i) = []
   \<and> length (rows dp rawRows) = length rawRows"
proof -
  have g: "uu_genres (normalize dp r i)
       = splitGenres (str_of (nullish (column r ''Genres'') (nullish (column r ''genres'') (JStr []))))"
    by (simp add: normalize_def Let_def)
  have ne: "list_all (\<lambda>g. g \<noteq> []) (uu_genres (normalize dp r i))"
    by (simp only: g splitGenres_nonempty)
  have emp: "uu_genres (normalize dp [] i) = []"
    by (simp add: normalize_def Let_def column_def splitGenres_def)
  have len: "length (rows dp rawRows) = length rawRows"
    by (simp add: rows_def)
  show ?thesis using entries_genres g ne emp len by blast
qed


section \<open>Rating histogram\<close>

lemma emptyBins_binsOf: "emptyBins = binsOf (\<lambda>b. 0)"
  by (simp add: emptyBins_def binsOf_def upt_rec numeral_eq_Suc)

lemma binsOf_length: "length (binsOf c) = 10"
  by (simp add: binsOf_def)

lemma binsOf_nth: "i < 10 \<Longrightarrow> binsOf c ! i = (Suc i, c (Suc i))"
  by (simp add: binsOf_def)

lemma binsOf_bump:
  assumes "1 \<le> k" and "k \<le> 10"
  shows "(binsOf c)[k - 1 := (fst (binsOf c ! (k - 1)), snd (binsOf c ! (k - 1)) + 1)]
           = binsOf (\<lambda>b. if b = k then c b + 1 else c b)"
proof (rule nth_equalityI)
  show "length ((binsOf c)[k - 1 := (fst (binsOf c ! (k - 1)), snd (binsOf c ! (k - 1)) + 1)])
          = length (binsOf (\<lambda>b. if b = k then c b + 1 else c b))"
    by (simp add: binsOf_length)
next
  fix i
  assume "i < length ((binsOf c)[k - 1 := (fst (binsOf c ! (k - 1)), snd (binsOf c ! (k - 1)) + 1)])"
  then have i: "i < 10" by (simp add: binsOf_length)
  have k: "k - 1 < 10" "Suc (k - 1) = k" using assms by simp_all
  show "(binsOf c)[k - 1 := (fst (binsOf c ! (k - 1)), snd (binsOf c ! (k - 1)) + 1)] ! i
          = binsOf (\<lambda>b. if b = k then c b + 1 else c b) ! i"
  proof (cases "i = k - 1")
    case True
    then show ?thesis using i k by (simp add: binsOf_nth binsOf_length)
  next
    case False
    then have "Suc i \<noteq> k" using k by auto
    then show ?thesis using False i by (simp add: binsOf_nth binsOf_length)
  qed
qed

lemma Math_round_int: "Math_round (of_int z) = z"
  by (simp add: Math_round_def floor_eq_iff)

lemma hist_step_whole:
  assumes "wholeRating r"
  shows "hist_step r (binsOf c)
           = Inr (binsOf (\<lambda>b. if spec_contributes b r then c b + 1 else c b))"
proof (cases "fin (uu_yourRating r)")
  case None
  then show ?thesis by (simp add: hist_step_def spec_contributes_def)
next
  case (Some y)
  show ?thesis
  proof (cases "1 \<le> y \<and> y \<le> 10")
    case False
    then show ?thesis using Some by (auto simp: hist_step_def spec_contributes_def)
  next
    case True
    with assms Some have whole: "of_int \<lfloor>y\<rfloor> = y" by (simp add: wholeRating_def)
    define z where "z = \<lfloor>y\<rfloor>"
    have yz: "y = of_int z" using whole[symmetric] by (simp only: z_def)
    have zr: "1 \<le> z" "z \<le> 10" using True yz by simp_all
    define k where "k = nat z"
    have kz: "int k = z" "1 \<le> k" "k \<le> 10" "nat (z - 1) = k - 1" using zr k_def by simp_all
    have contrib: "\<And>b. spec_contributes b r \<longleftrightarrow> b = k"
      using Some True yz kz by (auto simp: spec_contributes_def Math_round_int)
    have "hist_step r (binsOf c)
            = Inr ((binsOf c)[k - 1 := (fst (binsOf c ! (k - 1)), snd (binsOf c ! (k - 1)) + 1)])"
      using Some True yz kz by (simp add: hist_step_def Let_def)
    then show ?thesis using binsOf_bump[OF kz(2,3)] by (simp add: contrib)
  qed
qed

lemma hist_loop_whole:
  "list_all wholeRating rs
   \<Longrightarrow> hist_loop rs (binsOf c) = Inr (binsOf (\<lambda>b. c b + length (filter (spec_contributes b) rs)))"
proof (induction rs arbitrary: c)
  case Nil
  then show ?case by simp
next
  case (Cons r rs)
  then have w: "wholeRating r" and ws: "list_all wholeRating rs" by simp_all
  have "hist_loop (r # rs) (binsOf c)
          = hist_loop rs (binsOf (\<lambda>b. if spec_contributes b r then c b + 1 else c b))"
    by (simp add: hist_step_whole[OF w])
  also have "\<dots> = Inr (binsOf (\<lambda>b. (if spec_contributes b r then c b + 1 else c b)
                                     + length (filter (spec_contributes b) rs)))"
    by (rule Cons.IH[OF ws])
  also have "\<dots> = Inr (binsOf (\<lambda>b. c b + length (filter (spec_contributes b) (r # rs))))"
    by (simp add: binsOf_def)
  finally show ?case .
qed

lemma spec_histogram_binsOf:
  "spec_histogram rs = binsOf (\<lambda>b. length (filter (spec_contributes b) rs))"
  by (simp add: spec_histogram_def binsOf_def)

lemma wholeRating_rated_int: "wholeRating (rated (of_int z))"
  by (simp add: wholeRating_def rated_def)

text \<open>
  Over rows whose ratings within \<open>[1,10]\<close> are whole numbers the histogram is
  computed without error and is the one the specification describes: ten buckets
  labelled \<open>1\<close> to \<open>10\<close>, bucket \<open>b\<close> counting the rows whose rating is a finite
  number in \<open>[1,10]\<close> that rounds to \<open>b\<close>.
\<close>

lemma ratingHistogram_whole_ratings:
  assumes "list_all wholeRating rs"
  shows "ratingHistogram rs = Inr (spec_histogram rs)
         \<and> map fst (spec_histogram rs) = [1, 2, 3, 4, 5, 6, 7, 8, 9, 10]
         \<and> (\<forall>b. 1 \<le> b \<and> b \<le> 10 \<longrightarrow>
               snd (spec_histogram rs ! (b - 1)) = length (filter (spec_contributes b) rs))"
proof -
  have a: "ratingHistogram rs = Inr (spec_histogram rs)"
    using hist_loop_whole[OF assms, of "\<lambda>b. 0"]
    by (simp add: ratingHistogram_def emptyBins_binsOf spec_histogram_binsOf)
  have b: "map fst (spec_histogram rs) = [1, 2, 3, 4, 5, 6, 7, 8, 9, 10]"
    by (simp add: spec_histogram_def upt_rec numeral_eq_Suc comp_def)
  have c: "\<forall>b. 1 \<le> b \<and> b \<le> 10 \<longrightarrow>
               snd (spec_histogram rs ! (b - 1)) = length (filter (spec_contributes b) rs)"
    by (auto simp: spec_histogram_binsOf binsOf_nth)
  show ?thesis using a b c by blast
qed

lemma spec_histogram_scenario:
  "spec_histogram (map rated [5, 5, 7, 10])
     = [(1, 0), (2, 0), (3, 0), (4, 0), (5, 2), (6, 0), (7, 1), (8, 0), (9, 0), (10, 1)]"
  by (simp add: spec_histogram_def spec_contributes_def rated_def Math_round_def upt_rec
      numeral_eq_Suc floor_eq_iff)

text \<open>The ratings \<open>[5,5,7,10]\<close>: two in bucket 5, one in 7, one in 10, none elsewhere.\<close>

lemma ratingHistogram_scenario:
  "list_all wholeRating (map rated [5, 5, 7, 10])
   \<and> ratingHistogram (map rated [5, 5, 7, 10])
       = Inr [(1, 0), (2, 0), (3, 0), (4, 0), (5, 2), (6, 0), (7, 1), (8, 0), (9, 0), (10, 1)]"
proof -
  have h: "list_all wholeRating (map rated [5, 5, 7, 10])"
    by (simp add: wholeRating_def rated_def)
  have "ratingHistogram (map rated [5, 5, 7, 10]) = Inr (spec_histogram (map rated [5, 5, 7, 10]))"
    using ratingHistogram_whole_ratings[OF h] by blast
  then show ?thesis using h by (simp only: spec_histogram_scenario simp_thms)
qed

lemma floor_15_2: "\<lfloor>15 / 2 :: rat\<rfloor> = 7"
  by (simp add: floor_eq_iff)

lemma hist_fractional: "ratingHistogram [rated (15 / 2)] = Inl TypeError"
  by (simp add: ratingHistogram_def hist_step_def rated_def floor_15_2)

text \<open>
  C3 (fails in the code). A rating of \<open>7.5\<close> is a finite number in \<open>[1,10]\<close> and
  rounds to \<open>8\<close>, so the claim counts its record in bucket \<open>8\<close>. The guard of the
  histogram lets it through, the bins are then indexed with \<open>6.5\<close>, which reads
  \<open>undefined\<close>, and the update of \<open>.count\<close> throws a \<open>TypeError\<close>: no histogram is
  computed at all. Scenario C holds: the ratings \<open>[5,5,7,10]\<close> give the count \<open>2\<close> in
  bucket 5, \<open>1\<close> in bucket 7, \<open>1\<close> in bucket 10 and \<open>0\<close> elsewhere.
\<close>

theorem ratingHistogram_fractional_counterexample:
  "ratingHistogram [rated (15 / 2)] = Inl TypeError
   \<and> spec_contributes 8 (rated (15 / 2))
   \<and> ratingHistogram [rated (15 / 2)] \<noteq> Inr (spec_histogram [rated (15 / 2)])
   \<and> ratingHistogram (map rated [5, 5, 7, 10])
       = Inr [(1, 0), (2, 0), (3, 0), (4, 0), (5, 2), (6, 0), (7, 1), (8, 0), (9, 0), (10, 1)]"
proof -
  have c: "spec_contributes 8 (rated (15 / 2))"
    by (simp add: spec_contributes_def rated_def Math_round_def floor_eq_iff)
  have s: "ratingHistogram (map rated [5, 5, 7, 10])
       = Inr [(1, 0), (2, 0), (3, 0), (4, 0), (5, 2), (6, 0), (7, 1), (8, 0), (9, 0), (10, 1)]"
    using ratingHistogram_scenario by blast
  show ?thesis by (simp only: hist_fractional c s simp_thms sum.inject sum.distinct)
qed


section \<open>Filtering\<close>

lemma fold_min_le: "fold min ys (y::rat) \<le> y \<and> (\<forall>x\<in>set ys. fold min ys y \<le> x)"
proof (induction ys arbitrary: y)
  case Nil
  then show ?case by simp
next
  case (Cons a ys)
  have "fold min ys (min a y) \<le> min a y" and "\<forall>x\<in>set ys. fold min ys (min a y) \<le> x"
    using Cons.IH[of "min a y"] by simp_all
  then show ?case by auto
qed

lemma fold_max_ge: "y \<le> fold max ys (y::rat) \<and> (\<forall>x\<in>set ys. x \<le> fold max ys y)"
proof (induction ys arbitrary: y)
  case Nil
  then show ?case by simp
next
  case (Cons a ys)
  have "max a y \<le> fold max ys (max a y)" and "\<forall>x\<in>set ys. x \<le> fold max ys (max a y)"
    using Cons.IH[of "max a y"] by simp_all
  then show ?case by auto
qed

lemma allYears_bounds:
  assumes "r \<in> set rs" and "fin (uu_year r) = Some y"
  shows "fst (allYears rs) \<le> y \<and> y \<le> snd (allYears rs)"
proof -
  let ?ys = "List.map_filter (\<lambda>r. fin (uu_year r)) rs"
  have mem: "y \<in> set ?ys"
    using assms by (force simp: map_filter_def)
  show ?thesis
  proof (cases ?ys)
    case Nil
    then show ?thesis using mem by simp
  next
    case (Cons y0 ys)
    then have ay: "allYears rs = (fold min ys y0, fold max ys y0)"
      by (simp add: allYears_def)
    have "y = y0 \<or> y \<in> set ys" using mem Cons by simp
    then show ?thesis
      using fold_min_le[of ys y0] fold_max_ge[of y0 ys] by (auto simp: ay)
  qed
qed

lemma toLowerCase_Nil: "toLowerCase [] = []"
  by (simp add: toLowerCase_def)

lemma matches_neutral:
  assumes "neutral rs fs" and "r \<in> set rs" and "nonNegRating r"
  shows "matches fs r"
proof -
  have q: "toLowerCase (trim (fq fs)) = []"
    using assms(1) by (simp add: neutral_def toLowerCase_Nil)
  have ty: "titleType fs = ''all''" and g: "genreFilter fs = []"
    and my: "minYourRating fs = 0"
    and yr: "minYear fs = fst (allYears rs)" "maxYear fs = snd (allYears rs)"
    using assms(1) by (simp_all add: neutral_def)
  have yearOk: "(case fin (uu_year r) of None \<Rightarrow> True
                 | Some y \<Rightarrow> minYear fs \<le> y \<and> y \<le> maxYear fs)"
    using allYears_bounds[OF assms(2)] by (simp add: yr split: option.split)
  have yourOk: "(case fin (uu_yourRating r) of None \<Rightarrow> True
                 | Some y \<Rightarrow> minYourRating fs \<le> y)"
    using assms(3) by (simp add: nonNegRating_def my split: option.splits)
  show ?thesis
    unfolding matches_def Let_def using q ty g yearOk yourOk by simp
qed

text \<open>
  C5 (as amended). Under a filter state with every control neutral, every row
  whose rating is null or not negative passes, so a collection of such rows is
  filtered to itself.
\<close>

theorem neutral_filter_keeps_nonnegative:
  assumes "neutral rs fs" and "list_all nonNegRating rs"
  shows "filtered fs rs = rs \<and> list_all (matches fs) rs"
proof -
  have "\<forall>r\<in>set rs. matches fs r"
    using assms matches_neutral by (auto simp: list_all_iff)
  then show ?thesis by (simp add: filtered_def list_all_iff)
qed

lemma neutral_defaultFilter: "neutral rs (defaultFilter rs)"
  by (simp add: neutral_def defaultFilter_def trim_def)

lemma strip_minus_one: "strip_non_numeric ''-1'' = ''-1''"
  by (simp add: strip_non_numeric_def keeps_def is_digit_def)

lemma unsigned_one: "unsigned_decimal ''1'' = Some 1"
  by (simp add: unsigned_decimal_def is_digit_def digits_val_def digit_val_def)

lemma js_Number_minus_one: "js_Number ''-1'' = Fin (- 1)"
  by (simp add: js_Number_def unsigned_one overflows_def)

lemma parse_minus_one: "parseNumber (JStr ''-1'') = JNum (Fin (- 1))"
  by (simp add: strip_minus_one js_Number_minus_one)

lemma strip_eight: "strip_non_numeric ''8'' = ''8''"
  by (simp add: strip_non_numeric_def keeps_def is_digit_def)

lemma unsigned_eight: "unsigned_decimal ''8'' = Some 8"
  by (simp add: unsigned_decimal_def is_digit_def digits_val_def digit_val_def)

lemma js_Number_eight: "js_Number ''8'' = Fin 8"
  by (simp add: js_Number_def unsigned_eight overflows_def)

lemma parse_eight: "parseNumber (JStr ''8'') = JNum (Fin 8)"
  by (simp add: strip_eight js_Number_eight)

lemma rows_single: "rows dp [r] = [normalize dp r 0]"
  by (simp add: rows_def)

lemma rating_minus_one:
  "uu_yourRating (normalize dp [(''Title'', ''Heat''), (''Your Rating'', ''-1'')] 0) = JNum (Fin (- 1))"
  by (simp add: normalize_def column_def strip_minus_one js_Number_minus_one)

text \<open>
  C5 as stated fails: the row \<open>{"Title": "Heat", "Your Rating": "-1"}\<close> has the rating
  \<open>-1\<close>, which the default minimum rating \<open>0\<close> excludes.
\<close>

theorem neutral_filter_negative_rating_counterexample:
  "neutral (rows noDates [ [(''Title'', ''Heat''), (''Your Rating'', ''-1'')] ])
     (defaultFilter (rows noDates [ [(''Title'', ''Heat''), (''Your Rating'', ''-1'')] ]))
   \<and> filtered (defaultFilter (rows noDates [ [(''Title'', ''Heat''), (''Your Rating'', ''-1'')] ]))
        (rows noDates [ [(''Title'', ''Heat''), (''Your Rating'', ''-1'')] ]) = []
   \<and> rows noDates [ [(''Title'', ''Heat''), (''Your Rating'', ''-1'')] ] \<noteq> []"
proof -
  let ?r = "normalize noDates [(''Title'', ''Heat''), (''Your Rating'', ''-1'')] 0"
  have "\<not> matches (defaultFilter [?r]) ?r"
    by (simp add: matches_def Let_def rating_minus_one defaultFilter_def)
  then show ?thesis
    by (simp add: rows_single filtered_def neutral_defaultFilter)
qed

theorem neutral_filter_keeps_nonnegative_witness:
  "neutral (rows noDates [ [(''Title'', ''Heat''), (''Your Rating'', ''8'')] ])
     (defaultFilter (rows noDates [ [(''Title'', ''Heat''), (''Your Rating'', ''8'')] ]))
   \<and> list_all nonNegRating (rows noDates [ [(''Title'', ''Heat''), (''Your Rating'', ''8'')] ])
   \<and> filtered (defaultFilter (rows noDates [ [(''Title'', ''Heat''), (''Your Rating'', ''8'')] ]))
        (rows noDates [ [(''Title'', ''Heat''), (''Your Rating'', ''8'')] ])
      = rows noDates [ [(''Title'', ''Heat''), (''Your Rating'', ''8'')] ]"
proof -
  let ?rs = "rows noDates [ [(''Title'', ''Heat''), (''Your Rating'', ''8'')] ]"
  have n: "neutral ?rs (defaultFilter ?rs)" by (rule neutral_defaultFilter)
  have h: "list_all nonNegRating ?rs"
    by (simp add: rows_single nonNegRating_def normalize_def column_def strip_eight js_Number_eight)
  show ?thesis using neutral_filter_keeps_nonnegative[OF n h] n h by blast
qed


section \<open>Streaks and gaps\<close>

lemma utcDay_2024_01_01: "utcDay 2024 1 1 = 1704067200000"
  by (simp add: utcDay_def daysFromCivil_def dayMs_def Let_def)
lemma utcDay_2024_01_02: "utcDay 2024 1 2 = 1704153600000"
  by (simp add: utcDay_def daysFromCivil_def dayMs_def Let_def)
lemma utcDay_2024_01_03: "utcDay 2024 1 3 = 1704240000000"
  by (simp add: utcDay_def daysFromCivil_def dayMs_def Let_def)
lemma utcDay_2024_02_01: "utcDay 2024 2 1 = 1706745600000"
  by (simp add: utcDay_def daysFromCivil_def dayMs_def Let_def)

lemmas utcDay_scenario = utcDay_2024_01_01 utcDay_2024_01_02 utcDay_2024_01_03 utcDay_2024_02_01

lemma distinct_singleton_set:
  assumes "distinct xs" and "set xs = {d}"
  shows "xs = [d]"
proof (cases xs)
  case Nil
  then show ?thesis using assms(2) by simp
next
  case (Cons a ys)
  then have a: "a = d" using assms(2) by auto
  have "set ys \<subseteq> {d}" using assms(2) Cons by auto
  moreover have "d \<notin> set ys" using assms(1) Cons a by simp
  ultimately have "ys = []" by (cases ys) auto
  then show ?thesis using Cons a by simp
qed

lemma uniqueDays_single:
  assumes "dates \<noteq> []" and "list_all (\<lambda>t. localMidnight tz t = d) dates"
  shows "uniqueDays tz dates = [d]"
proof -
  have "set (map (localMidnight tz) dates) = {d}"
    using assms by (cases dates) (auto simp: list_all_iff)
  then have "set (remdups (map (localMidnight tz) dates)) = {d}" by simp
  then have "remdups (map (localMidnight tz) dates) = [d]"
    by (rule distinct_singleton_set[OF distinct_remdups])
  then show ?thesis by (simp add: uniqueDays_def)
qed

lemma streak_scenario:
  "streak_loop \<lparr> len = 1, startDay = Some (1704067200000 - tz), endDay = Some (1704067200000 - tz) \<rparr>
      (1704067200000 - tz) 1 (1704067200000 - tz)
      [1704153600000 - tz, 1704240000000 - tz, 1706745600000 - tz]
   = \<lparr> len = 3, startDay = Some (1704067200000 - tz), endDay = Some (1704240000000 - tz) \<rparr>"
  by (simp add: dayMs_def Let_def)

lemma floor_3_2: "\<lfloor>3 / 2 :: rat\<rfloor> = 1"
  by (simp add: floor_eq_iff)

lemma floor_59_2: "\<lfloor>59 / 2 :: rat\<rfloor> = 29"
  by (simp add: floor_eq_iff)

lemma gap_scenario:
  "gap_loop \<lparr> days = 0, gapStart = Some (1704067200000 - tz), gapEnd = Some (1704153600000 - tz) \<rparr>
      (1704067200000 - tz)
      [1704153600000 - tz, 1704240000000 - tz, 1706745600000 - tz]
   = \<lparr> days = 29, gapStart = Some (1704240000000 - tz), gapEnd = Some (1706745600000 - tz) \<rparr>"
  by (simp add: dayMs_def Let_def Math_round_def floor_3_2 floor_59_2)

text \<open>
  C4. When all rating dates fall on one local day \<open>d\<close>, the longest streak has length
  \<open>1\<close> (from \<open>d\<close> to \<open>d\<close>) and the longest gap is \<open>0\<close>. When the rating days are
  2024-01-01, 2024-01-02, 2024-01-03 and 2024-02-01, the longest streak is the
  three days ending on 2024-01-03 and the longest gap is the 29 days from
  2024-01-03 to 2024-02-01. A day is named by the time value of its local
  midnight, \<open>utcDay y m d - tz\<close>.
\<close>

theorem streak_gap_days:
  "(dates \<noteq> [] \<and> list_all (\<lambda>t. localMidnight tz t = d) dates \<longrightarrow>
      longestStreak tz dates = \<lparr> len = 1, startDay = Some d, endDay = Some d \<rparr>
      \<and> longestGap tz dates = \<lparr> days = 0, gapStart = None, gapEnd = None \<rparr>)
   \<and> (uniqueDays tz dates
         = [utcDay 2024 1 1 - tz, utcDay 2024 1 2 - tz, utcDay 2024 1 3 - tz, utcDay 2024 2 1 - tz] \<longrightarrow>
      longestStreak tz dates
        = \<lparr> len = 3, startDay = Some (utcDay 2024 1 1 - tz), endDay = Some (utcDay 2024 1 3 - tz) \<rparr>
      \<and> longestGap tz dates
        = \<lparr> days = 29, gapStart = Some (utcDay 2024 1 3 - tz), gapEnd = Some (utcDay 2024 2 1 - tz) \<rparr>)"
proof (intro conjI impI)
  assume a: "dates \<noteq> [] \<and> list_all (\<lambda>t. localMidnight tz t = d) dates"
  then have u: "uniqueDays tz dates = [d]" by (simp add: uniqueDays_single)
  show "longestStreak tz dates = \<lparr> len = 1, startDay = Some d, endDay = Some d \<rparr>"
    by (simp add: longestStreak_def u)
  show "longestGap tz dates = \<lparr> days = 0, gapStart = None, gapEnd = None \<rparr>"
    by (simp add: longestGap_def u)
next
  assume u: "uniqueDays tz dates
         = [utcDay 2024 1 1 - tz, utcDay 2024 1 2 - tz, utcDay 2024 1 3 - tz, utcDay 2024 2 1 - tz]"
  show "longestStreak tz dates
        = \<lparr> len = 3, startDay = Some (utcDay 2024 1 1 - tz), endDay = Some (utcDay 2024 1 3 - tz) \<rparr>"
    unfolding longestStreak_def u by (simp only: utcDay_scenario list.case streak_scenario)
  show "longestGap tz dates
        = \<lparr> days = 29, gapStart = Some (utcDay 2024 1 3 - tz), gapEnd = Some (utcDay 2024 2 1 - tz) \<rparr>"
    unfolding longestGap_def u by (simp only: utcDay_scenario list.case gap_scenario)
qed


theorem streak_gap_days_witness:
  "longestStreak 3600000 [utcDay 2024 1 1 + 1000, utcDay 2024 1 1 + 50000000]
     = \<lparr> len = 1, startDay = Some (utcDay 2024 1 1 - 3600000),
         endDay = Some (utcDay 2024 1 1 - 3600000) \<rparr>
   \<and> longestGap 3600000 [utcDay 2024 1 1 + 1000, utcDay 2024 1 1 + 50000000]
     = \<lparr> days = 0, gapStart = None, gapEnd = None \<rparr>
   \<and> longestStreak 3600000
       [utcDay 2024 2 1, utcDay 2024 1 2, utcDay 2024 1 1 + 7200000, utcDay 2024 1 3, utcDay 2024 1 2]
     = \<lparr> len = 3, startDay = Some (utcDay 2024 1 1 - 3600000),
         endDay = Some (utcDay 2024 1 3 - 3600000) \<rparr>
   \<and> longestGap 3600000
       [utcDay 2024 2 1, utcDay 2024 1 2, utcDay 2024 1 1 + 7200000, utcDay 2024 1 3, utcDay 2024 1 2]
     = \<lparr> days = 29, gapStart = Some (utcDay 2024 1 3 - 3600000),
         gapEnd = Some (utcDay 2024 2 1 - 3600000) \<rparr>"
proof -
  let ?one = "[utcDay 2024 1 1 + 1000, utcDay 2024 1 1 + 50000000]"
  let ?four = "[utcDay 2024 2 1, utcDay 2024 1 2, utcDay 2024 1 1 + 7200000, utcDay 2024 1 3,
                utcDay 2024 1 2]"
  have h1: "?one \<noteq> [] \<and> list_all (\<lambda>t. localMidnight 3600000 t = utcDay 2024 1 1 - 3600000) ?one"
    by (simp add: utcDay_scenario localMidnight_def dayMs_def)
  have h2: "uniqueDays 3600000 ?four
      = [utcDay 2024 1 1 - 3600000, utcDay 2024 1 2 - 3600000, utcDay 2024 1 3 - 3600000,
         utcDay 2024 2 1 - 3600000]"
    by (simp add: utcDay_scenario uniqueDays_def localMidnight_def dayMs_def)
  show ?thesis
    using streak_gap_days[of ?one 3600000 "utcDay 2024 1 1 - 3600000"]
      streak_gap_days[of ?four 3600000] h1 h2
    by blast
qed


section \<open>CSV export\<close>

lemma rows_member:
  assumes "r \<in> set (rows dp raw)"
  shows "\<exists>raw0 i. raw0 \<in> set raw \<and> r = normalize dp raw0 i"
proof -
  from assms obtain p where p: "p \<in> set (zip raw [0 ..< length raw])"
    and r: "r = normalize dp (fst p) (snd p)"
    by (auto simp: rows_def)
  obtain a b where ab: "p = (a, b)" by (cases p)
  have "a \<in> set raw" using p unfolding ab by (rule set_zip_leftD)
  then show ?thesis using r ab by auto
qed

lemma uu_title_normalize:
  "uu_title (normalize dp r i)
     = str_of (nullish (column r ''Title'') (nullish (column r ''title'') (JStr [])))"
  by (simp add: normalize_def Let_def)

lemma titles_rows:
  "titles (rows dp raw)
     = map (\<lambda>r. str_of (nullish (column r ''Title'') (nullish (column r ''title'') (JStr [])))) raw"
proof -
  have "titles (rows dp raw)
          = map (\<lambda>p. str_of (nullish (column (fst p) ''Title'')
                                (nullish (column (fst p) ''title'') (JStr []))))
              (zip raw [0 ..< length raw])"
    by (simp add: titles_def rows_def uu_title_normalize case_prod_beta comp_def)
  also have "\<dots> = map (\<lambda>r. str_of (nullish (column r ''Title'')
                                   (nullish (column r ''title'') (JStr []))))
                      (map fst (zip raw [0 ..< length raw]))"
    by (simp only: map_map comp_def)
  also have "\<dots> = map (\<lambda>r. str_of (nullish (column r ''Title'')
                                   (nullish (column r ''title'') (JStr [])))) raw"
    by (simp add: map_fst_zip)
  finally show ?thesis .
qed

lemma zip_map_self: "zip fs (map g fs) = map (\<lambda>f. (f, g f)) fs"
  by (induction fs) simp_all

lemma map_of_graph: "map_of (map (\<lambda>f. (f, g f)) fs) k = (if k \<in> set fs then Some (g k) else None)"
  by (induction fs) simp_all

text \<open>The line that the export and a second parse make of one row object.\<close>

lemma reparsed_column:
  assumes render: "\<forall>s. render (Prim (JStr s)) = s"
    and keys: "map fst raw0 = cols"
    and nd: "list_all (\<lambda>k. \<not> dunder k) cols"
    and k: "\<not> dunder k"
  shows "map_of (map (\<lambda>f. (f, case map_of (entries (normalize dp raw0 i)) f of
                               None \<Rightarrow> [] | Some c \<Rightarrow> render c))
                 (cols @ derived_keys)) k
         = map_of raw0 k"
proof -
  let ?r = "normalize dp raw0 i"
  have nd0: "list_all (\<lambda>k. \<not> dunder k) (map fst (src ?r))"
    using nd keys by (simp add: src_normalize)
  have e: "entries ?r = map (\<lambda>kv. (fst kv, Prim (JStr (snd kv)))) raw0 @ derived ?r"
    using entries_no_dunder[OF nd0] by (simp add: src_normalize)
  have kd: "k \<notin> set derived_keys"
    using k dunder_derived_keys by (auto simp: list_all_iff)
  show ?thesis
  proof (cases "map_of raw0 k")
    case None
    then have "k \<notin> set cols"
      using keys by (metis map_of_eq_None_iff set_map)
    then show ?thesis using None kd by (simp add: map_of_graph)
  next
    case (Some v)
    then have kin: "k \<in> set cols"
      using keys by (metis map_of_eq_None_iff set_map option.distinct(1))
    have "map_of (entries ?r) k = Some (Prim (JStr v))"
      by (simp add: e map_add_Some_iff map_of_wrap Some)
    then show ?thesis using Some kin render by (simp add: map_of_graph)
  qed
qed

lemma reparsed_title:
  assumes render: "\<forall>s. render (Prim (JStr s)) = s"
    and keys: "map fst raw0 = cols"
    and nd: "list_all (\<lambda>k. \<not> dunder k) cols"
  shows "str_of (nullish
           (column (map (\<lambda>f. (f, case map_of (entries (normalize dp raw0 i)) f of
                               None \<Rightarrow> [] | Some c \<Rightarrow> render c)) (cols @ derived_keys)) ''Title'')
           (nullish
             (column (map (\<lambda>f. (f, case map_of (entries (normalize dp raw0 i)) f of
                               None \<Rightarrow> [] | Some c \<Rightarrow> render c)) (cols @ derived_keys)) ''title'')
             (JStr [])))
         = uu_title (normalize dp raw0 i)"
proof -
  have t1: "\<not> dunder ''Title''" and t2: "\<not> dunder ''title''"
    by (simp_all add: dunder_def)
  let ?line = "map (\<lambda>f. (f, case map_of (entries (normalize dp raw0 i)) f of
                               None \<Rightarrow> [] | Some c \<Rightarrow> render c)) (cols @ derived_keys)"
  have c1: "column ?line ''Title'' = column raw0 ''Title''"
    by (simp only: column_def reparsed_column[OF render keys nd t1])
  have c2: "column ?line ''title'' = column raw0 ''title''"
    by (simp only: column_def reparsed_column[OF render keys nd t2])
  show ?thesis by (simp only: c1 c2 uu_title_normalize)
qed

lemma entries_keys:
  assumes "map fst raw0 = cols" and "list_all (\<lambda>k. \<not> dunder k) cols"
  shows "map fst (entries (normalize dp raw0 i)) = cols @ derived_keys"
proof -
  have nd0: "list_all (\<lambda>k. \<not> dunder k) (map fst (src (normalize dp raw0 i)))"
    using assms by (simp add: src_normalize)
  show ?thesis
    using entries_no_dunder[OF nd0] assms(1)
    by (simp add: src_normalize map_fst_derived comp_def)
qed

lemma export_fields_titles:
  assumes render: "\<forall>s. render (Prim (JStr s)) = s"
    and keys: "list_all (\<lambda>r. map fst r = cols) raw"
    and nd: "list_all (\<lambda>k. \<not> dunder k) cols"
  shows "fst (downloadCSVFromRows render (filtered fs (rows dp raw)))
           = (if filtered fs (rows dp raw) = [] then [] else cols @ derived_keys)
         \<and> titles (rows dp' (parse_table (downloadCSVFromRows render (filtered fs (rows dp raw)))))
           = titles (filtered fs (rows dp raw))"
proof -
  let ?fl = "filtered fs (rows dp raw)"
  let ?line = "\<lambda>ob. map (\<lambda>f. (f, case map_of ob f of None \<Rightarrow> [] | Some c \<Rightarrow> render c))
                      (cols @ derived_keys)"
  have norm: "\<And>r. r \<in> set ?fl \<Longrightarrow> \<exists>raw0 i. map fst raw0 = cols \<and> r = normalize dp raw0 i"
  proof -
    fix r assume "r \<in> set ?fl"
    then have "r \<in> set (rows dp raw)" by (simp add: filtered_def)
    then obtain raw0 i where "raw0 \<in> set raw" and "r = normalize dp raw0 i"
      using rows_member by blast
    then show "\<exists>raw0 i. map fst raw0 = cols \<and> r = normalize dp raw0 i"
      using keys by (auto simp: list_all_iff)
  qed
  have ekeys: "\<And>r. r \<in> set ?fl \<Longrightarrow> map fst (entries r) = cols @ derived_keys"
    using norm entries_keys[OF _ nd] by blast
  have fields: "fst (downloadCSVFromRows render ?fl)
                  = (if ?fl = [] then [] else cols @ derived_keys)"
  proof (cases ?fl)
    case Nil
    then show ?thesis by (simp add: downloadCSVFromRows_def unparse_def)
  next
    case (Cons r rest)
    then have "r \<in> set ?fl" by simp
    then have "map fst (entries r) = cols @ derived_keys" by (rule ekeys)
    then show ?thesis using Cons by (simp add: downloadCSVFromRows_def unparse_def)
  qed
  have table: "parse_table (downloadCSVFromRows render ?fl) = map (\<lambda>r. ?line (entries r)) ?fl"
  proof (cases "?fl = []")
    case True
    then show ?thesis by (simp add: parse_table_def downloadCSVFromRows_def unparse_def)
  next
    case False
    have "fst (unparse render (map entries ?fl)) = cols @ derived_keys"
      using fields False by (simp add: downloadCSVFromRows_def)
    moreover have "snd (unparse render (map entries ?fl))
        = map (\<lambda>ob. map (\<lambda>f. case map_of ob f of None \<Rightarrow> [] | Some c \<Rightarrow> render c)
                         (fst (unparse render (map entries ?fl)))) (map entries ?fl)"
      by (simp add: unparse_def Let_def)
    ultimately show ?thesis
      by (simp add: parse_table_def downloadCSVFromRows_def zip_map_self comp_def)
  qed
  have "titles (rows dp' (parse_table (downloadCSVFromRows render ?fl)))
          = map (\<lambda>r. str_of (nullish (column (?line (entries r)) ''Title'')
                               (nullish (column (?line (entries r)) ''title'') (JStr [])))) ?fl"
    by (simp add: titles_rows table comp_def)
  also have "\<dots> = map uu_title ?fl"
  proof (rule map_cong[OF refl])
    fix r assume "r \<in> set ?fl"
    then obtain raw0 i where k0: "map fst raw0 = cols" and r: "r = normalize dp raw0 i"
      using norm by blast
    show "str_of (nullish (column (?line (entries r)) ''Title'')
                   (nullish (column (?line (entries r)) ''title'') (JStr []))) = uu_title r"
      unfolding r by (rule reparsed_title[OF render k0 nd])
  qed
  finally have t: "titles (rows dp' (parse_table (downloadCSVFromRows render ?fl))) = titles ?fl"
    by (simp add: titles_def)
  show ?thesis using fields t by blast
qed


text \<open>
  C2 (as amended). The export writes the filtered row objects as they are. When
  all raw rows have the same columns, none beginning with \<open>__\<close>, the exported
  columns are those source columns followed by the twelve derived \<open>__\<close> columns,
  and parsing the exported table again and normalizing it yields the same titles
  in the same order.
\<close>

theorem export_reparse_titles:
  assumes "\<forall>s. render (Prim (JStr s)) = s"
    and "list_all (\<lambda>r. map fst r = cols) raw"
    and "list_all (\<lambda>k. \<not> dunder k) cols"
  shows "fst (downloadCSVFromRows render (filtered fs (rows dp raw)))
           = (if filtered fs (rows dp raw) = [] then [] else cols @ derived_keys)
         \<and> titles (rows dp' (parse_table (downloadCSVFromRows render (filtered fs (rows dp raw)))))
           = titles (filtered fs (rows dp raw))"
  using assms by (rule export_fields_titles)

lemma render_plain_string: "\<forall>s. render_plain (Prim (JStr s)) = s"
  by (simp add: render_plain_def)

theorem export_reparse_titles_witness:
  "(\<forall>s. render_plain (Prim (JStr s)) = s)
   \<and> list_all (\<lambda>r. map fst r = [''Title'', ''Your Rating''])
        [ [(''Title'', ''Heat''), (''Your Rating'', ''8'')], [(''Title'', ''Ran''), (''Your Rating'', ''9'')] ]
   \<and> list_all (\<lambda>k. \<not> dunder k) [''Title'', ''Your Rating'']
   \<and> titles (rows noDates (parse_table (downloadCSVFromRows render_plain
         (filtered \<lparr> fq = [], minYear = 1900, maxYear = 2100, minYourRating = 0,
                     titleType = ''all'', genreFilter = [] \<rparr>
            (rows noDates [ [(''Title'', ''Heat''), (''Your Rating'', ''8'')],
                           [(''Title'', ''Ran''), (''Your Rating'', ''9'')] ])))))
     = titles (filtered \<lparr> fq = [], minYear = 1900, maxYear = 2100, minYourRating = 0,
                           titleType = ''all'', genreFilter = [] \<rparr>
                 (rows noDates [ [(''Title'', ''Heat''), (''Your Rating'', ''8'')],
                                [(''Title'', ''Ran''), (''Your Rating'', ''9'')] ]))"
proof -
  have h2: "list_all (\<lambda>r. map fst r = [''Title'', ''Your Rating''])
        [ [(''Title'', ''Heat''), (''Your Rating'', ''8'')], [(''Title'', ''Ran''), (''Your Rating'', ''9'')] ]"
    by simp
  have h3: "list_all (\<lambda>k. \<not> dunder k) [''Title'', ''Your Rating'']"
    by (simp add: dunder_def)
  show ?thesis
    using export_reparse_titles[OF render_plain_string h2 h3] render_plain_string h2 h3
    by blast
qed

text \<open>
  C2 as stated fails: for the one-row collection \<open>{"Title": "Heat"}\<close> under the
  default filter the exported columns are not the source column \<open>Title\<close> alone; the
  twelve derived columns are exported with it.
\<close>

theorem export_fields_counterexample:
  "fst (downloadCSVFromRows render_plain
          (filtered (defaultFilter (rows noDates [ [(''Title'', ''Heat'')] ]))
             (rows noDates [ [(''Title'', ''Heat'')] ])))
     = [''Title'', ''__title'', ''__type'', ''__url'', ''__genres'', ''__directors'', ''__tconst'',
        ''__yourRating'', ''__imdbRating'', ''__runtime'', ''__year'', ''__dateRated'',
        ''__releaseDate'']
   \<and> fst (downloadCSVFromRows render_plain
          (filtered (defaultFilter (rows noDates [ [(''Title'', ''Heat'')] ]))
             (rows noDates [ [(''Title'', ''Heat'')] ])))
     \<noteq> map fst [(''Title'', ''Heat'')]"
proof -
  let ?rs = "rows noDates [ [(''Title'', ''Heat'')] ]"
  have nn: "list_all nonNegRating ?rs"
    by (simp add: rows_single nonNegRating_def normalize_def column_def)
  have "list_all (matches (defaultFilter ?rs)) ?rs"
    using matches_neutral[OF neutral_defaultFilter] nn by (auto simp: list_all_iff)
  then have keep: "filtered (defaultFilter ?rs) ?rs = ?rs"
    by (simp add: filtered_def list_all_iff)
  have ne: "?rs \<noteq> []" by (simp add: rows_single)
  have h2: "list_all (\<lambda>r. map fst r = [''Title'']) [ [(''Title'', ''Heat'')] ]" by simp
  have h3: "list_all (\<lambda>k. \<not> dunder k) [''Title'']" by (simp add: dunder_def)
  have "fst (downloadCSVFromRows render_plain (filtered (defaultFilter ?rs) ?rs))
          = [''Title''] @ derived_keys"
    using export_fields_titles[OF render_plain_string h2 h3, of "defaultFilter ?rs" noDates noDates]
      keep ne by simp
  then show ?thesis by (simp add: derived_keys_def)
qed


section \<open>Top director\<close>

lemma credit_None: "fin rating = None \<Longrightarrow> credit rating d dm = dm"
  by (simp add: credit_def)

lemma credit_Some: "fin rating = Some y \<Longrightarrow> credit rating d dm = addCredit (d, y) dm"
  by (simp add: credit_def addCredit_def)

lemma fold_credit_None: "fin rating = None \<Longrightarrow> fold (credit rating) ds dm = dm"
  by (induction ds arbitrary: dm) (simp_all add: credit_None)

lemma fold_credit_Some:
  "fin rating = Some y \<Longrightarrow> fold (credit rating) ds dm = fold addCredit (map (\<lambda>d. (d, y)) ds) dm"
  by (induction ds arbitrary: dm) (simp_all add: credit_Some)

lemma directorNames_Nil: "directorNames [] = []"
  by (simp add: directorNames_def trim_def)

lemma dirMap_row_credits:
  "dirMap_row r dm
     = fold addCredit (case fin (uu_yourRating r) of
                         None \<Rightarrow> []
                       | Some y \<Rightarrow> map (\<lambda>d. (d, y)) (directorNames (uu_directors r))) dm"
proof (cases "fin (uu_yourRating r)")
  case None
  then show ?thesis by (simp add: dirMap_row_def fold_credit_None)
next
  case (Some y)
  then show ?thesis
    by (cases "uu_directors r = []") (simp_all add: dirMap_row_def fold_credit_Some directorNames_Nil)
qed

lemma fold_dirMap_row:
  "fold dirMap_row rs dm = fold addCredit (creditList rs) dm"
proof (induction rs arbitrary: dm)
  case Nil
  then show ?case by (simp add: creditList_def)
next
  case (Cons r rs)
  let ?cs = "case fin (uu_yourRating r) of
               None \<Rightarrow> []
             | Some y \<Rightarrow> map (\<lambda>d. (d, y)) (directorNames (uu_directors r))"
  have cl: "creditList (r # rs) = ?cs @ creditList rs"
    by (simp add: creditList_def)
  have "fold dirMap_row (r # rs) dm = fold dirMap_row rs (dirMap_row r dm)" by simp
  also have "\<dots> = fold addCredit (creditList rs) (dirMap_row r dm)" by (rule Cons.IH)
  also have "\<dots> = fold addCredit (creditList rs) (fold addCredit ?cs dm)"
    by (simp only: dirMap_row_credits)
  also have "\<dots> = fold addCredit (creditList (r # rs)) dm"
    by (simp only: cl fold_append comp_def)
  finally show ?case .
qed

lemma dirMap_tally: "dirMap rs = fold addCredit (creditList rs) []"
  by (simp add: dirMap_def fold_dirMap_row)


text \<open>The tally after a list of credits, from the empty map.\<close>

lemma addCredit_keys:
  "map fst (addCredit c dm)
     = (if fst c \<in> set (map fst dm) then map fst dm else map fst dm @ [fst c])"
  by (simp add: addCredit_def Let_def update_keys)

lemma addCredit_distinct: "distinct (map fst dm) \<Longrightarrow> distinct (map fst (addCredit c dm))"
  by (simp add: addCredit_def Let_def distinct_update)

lemma addCredit_map_of_same:
  "map_of (addCredit c dm) (fst c)
     = Some (case map_of dm (fst c) of None \<Rightarrow> (snd c, 1) | Some m \<Rightarrow> (fst m + snd c, snd m + 1))"
  by (simp add: addCredit_def Let_def update_conv' split: option.splits)

lemma addCredit_map_of_other:
  "d \<noteq> fst c \<Longrightarrow> map_of (addCredit c dm) d = map_of dm d"
  by (simp add: addCredit_def Let_def update_conv')

lemma first_index_append_mem:
  "a \<in> set xs \<Longrightarrow> first_index (xs @ ys) a = first_index xs a"
  by (simp add: first_index_def takeWhile_append1)

lemma first_index_less: "a \<in> set xs \<Longrightarrow> first_index xs a < length xs"
  unfolding first_index_def by (induction xs) auto

lemma first_index_new: "a \<notin> set xs \<Longrightarrow> first_index (xs @ [a]) a = length xs"
  unfolding first_index_def by (induction xs) auto


lemma tally_invariant:
  "distinct (map fst (fold addCredit cl []))
   \<and> (\<forall>d. map_of (fold addCredit cl []) d = tallied cl d)
   \<and> set (map fst (fold addCredit cl [])) = set (map fst cl)
   \<and> sorted_wrt (\<lambda>a b. first_index (map fst cl) a < first_index (map fst cl) b)
        (map fst (fold addCredit cl []))"
proof (induction cl rule: rev_induct)
  case Nil
  then show ?case by (simp add: tallied_def)
next
  case (snoc c cl)
  let ?T = "fold addCredit cl []"
  have step: "fold addCredit (cl @ [c]) [] = addCredit c ?T" by simp
  have dist: "distinct (map fst ?T)" and mp: "\<forall>d. map_of ?T d = tallied cl d"
    and keys: "set (map fst ?T) = set (map fst cl)"
    and srt: "sorted_wrt (\<lambda>a b. first_index (map fst cl) a < first_index (map fst cl) b) (map fst ?T)"
    using snoc.IH by simp_all
  have d': "distinct (map fst (addCredit c ?T))" using dist by (rule addCredit_distinct)
  have m': "\<forall>d. map_of (addCredit c ?T) d = tallied (cl @ [c]) d"
  proof
    fix d
    show "map_of (addCredit c ?T) d = tallied (cl @ [c]) d"
    proof (cases "d = fst c")
      case True
      have "map_of ?T (fst c) = tallied cl (fst c)" using mp by simp
      then show ?thesis
        unfolding True addCredit_map_of_same
        by (simp add: tallied_def Let_def split: if_splits)
    next
      case False
      then show ?thesis using mp by (simp add: addCredit_map_of_other tallied_def)
    qed
  qed
  have k': "set (map fst (addCredit c ?T)) = set (map fst (cl @ [c]))"
    using keys by (auto simp: addCredit_keys)
  have s': "sorted_wrt (\<lambda>a b. first_index (map fst (cl @ [c])) a < first_index (map fst (cl @ [c])) b)
              (map fst (addCredit c ?T))"
  proof -
    have old: "sorted_wrt (\<lambda>a b. first_index (map fst (cl @ [c])) a
                                 < first_index (map fst (cl @ [c])) b) (map fst ?T)"
    proof (rule sorted_wrt_mono_rel[OF _ srt])
      fix a b
      assume "a \<in> set (map fst ?T)" and "b \<in> set (map fst ?T)"
        and "first_index (map fst cl) a < first_index (map fst cl) b"
      then show "first_index (map fst (cl @ [c])) a < first_index (map fst (cl @ [c])) b"
        using keys by (simp add: first_index_append_mem)
    qed
    show ?thesis
    proof (cases "fst c \<in> set (map fst ?T)")
      case True
      then show ?thesis using old by (simp add: addCredit_keys)
    next
      case False
      then have new: "fst c \<notin> set (map fst cl)" using keys by simp
      have "\<forall>a\<in>set (map fst ?T). first_index (map fst (cl @ [c])) a
                                   < first_index (map fst (cl @ [c])) (fst c)"
      proof
        fix a assume "a \<in> set (map fst ?T)"
        then have a: "a \<in> set (map fst cl)" using keys by simp
        have "first_index (map fst (cl @ [c])) a = first_index (map fst cl) a"
          using a by (simp add: first_index_append_mem)
        moreover have "first_index (map fst (cl @ [c])) (fst c) = length (map fst cl)"
          using first_index_new[OF new] by simp
        ultimately show "first_index (map fst (cl @ [c])) a
                           < first_index (map fst (cl @ [c])) (fst c)"
          using first_index_less[OF a] by simp
      qed
      then show ?thesis using old False by (simp add: addCredit_keys sorted_wrt_append)
    qed
  qed
  show ?case unfolding step using d' m' k' s' by blast
qed

text \<open>The scan for the best average over the entries of the tally.\<close>

lemma top_step_alt:
  "top_step e cur =
     (if qualifies e
      then (case cur of
              None \<Rightarrow> Some (asTop e)
            | Some t \<Rightarrow> if average e > td_avg t then Some (asTop e) else Some t)
      else cur)"
  by (cases e; cases cur) (simp_all add: top_step_def qualifies_def average_def asTop_def Let_def)

lemma td_avg_asTop: "td_avg (asTop e) = average e"
  by (simp add: asTop_def)

lemma top_fold:
  "(fold top_step es None = None \<longleftrightarrow> (\<forall>e\<in>set es. \<not> qualifies e))
   \<and> (\<forall>t. fold top_step es None = Some t \<longrightarrow>
         (\<exists>pre e0 post. es = pre @ e0 # post \<and> qualifies e0 \<and> t = asTop e0
            \<and> (\<forall>e\<in>set pre. qualifies e \<longrightarrow> average e < average e0)
            \<and> (\<forall>e\<in>set post. qualifies e \<longrightarrow> average e \<le> average e0)))"
proof (induction es rule: rev_induct)
  case Nil
  then show ?case by simp
next
  case (snoc e es)
  let ?res = "fold top_step es None"
  have step: "fold top_step (es @ [e]) None = top_step e ?res" by simp
  have none: "?res = None \<longleftrightarrow> (\<forall>x\<in>set es. \<not> qualifies x)"
    and some: "\<And>t. ?res = Some t \<Longrightarrow>
         \<exists>pre e0 post. es = pre @ e0 # post \<and> qualifies e0 \<and> t = asTop e0
            \<and> (\<forall>x\<in>set pre. qualifies x \<longrightarrow> average x < average e0)
            \<and> (\<forall>x\<in>set post. qualifies x \<longrightarrow> average x \<le> average e0)"
    using snoc.IH by blast+
  show ?case
  proof (cases "qualifies e")
    case False
    then have new: "top_step e ?res = ?res" by (simp add: top_step_alt)
    have a: "top_step e ?res = None \<longleftrightarrow> (\<forall>x\<in>set (es @ [e]). \<not> qualifies x)"
      using none False by (simp add: new)
    have b: "\<forall>t. top_step e ?res = Some t \<longrightarrow>
         (\<exists>pre e0 post. es @ [e] = pre @ e0 # post \<and> qualifies e0 \<and> t = asTop e0
            \<and> (\<forall>x\<in>set pre. qualifies x \<longrightarrow> average x < average e0)
            \<and> (\<forall>x\<in>set post. qualifies x \<longrightarrow> average x \<le> average e0))"
    proof (intro allI impI)
      fix t assume "top_step e ?res = Some t"
      then have "?res = Some t" by (simp add: new)
      then obtain pre e0 post where es: "es = pre @ e0 # post" and q: "qualifies e0"
        and t: "t = asTop e0"
        and p1: "\<forall>x\<in>set pre. qualifies x \<longrightarrow> average x < average e0"
        and p2: "\<forall>x\<in>set post. qualifies x \<longrightarrow> average x \<le> average e0"
        using some by blast
      have "es @ [e] = pre @ e0 # (post @ [e])" using es by simp
      moreover have "\<forall>x\<in>set (post @ [e]). qualifies x \<longrightarrow> average x \<le> average e0"
        using p2 False by simp
      ultimately show "\<exists>pre e0 post. es @ [e] = pre @ e0 # post \<and> qualifies e0 \<and> t = asTop e0
            \<and> (\<forall>x\<in>set pre. qualifies x \<longrightarrow> average x < average e0)
            \<and> (\<forall>x\<in>set post. qualifies x \<longrightarrow> average x \<le> average e0)"
        using q t p1 by blast
    qed
    show ?thesis unfolding step using a b by blast
  next
    case True
    have a: "top_step e ?res = None \<longleftrightarrow> (\<forall>x\<in>set (es @ [e]). \<not> qualifies x)"
      using True by (auto simp: top_step_alt split: option.splits)
    have b: "\<forall>t. top_step e ?res = Some t \<longrightarrow>
         (\<exists>pre e0 post. es @ [e] = pre @ e0 # post \<and> qualifies e0 \<and> t = asTop e0
            \<and> (\<forall>x\<in>set pre. qualifies x \<longrightarrow> average x < average e0)
            \<and> (\<forall>x\<in>set post. qualifies x \<longrightarrow> average x \<le> average e0))"
    proof (intro allI impI)
      fix t assume new: "top_step e ?res = Some t"
      show "\<exists>pre e0 post. es @ [e] = pre @ e0 # post \<and> qualifies e0 \<and> t = asTop e0
            \<and> (\<forall>x\<in>set pre. qualifies x \<longrightarrow> average x < average e0)
            \<and> (\<forall>x\<in>set post. qualifies x \<longrightarrow> average x \<le> average e0)"
      proof (cases ?res)
        case None
        then have t: "t = asTop e" using new True by (simp add: top_step_alt)
        have "\<forall>x\<in>set es. \<not> qualifies x" using none None by simp
        then have "es @ [e] = es @ e # [] \<and> qualifies e \<and> t = asTop e
            \<and> (\<forall>x\<in>set es. qualifies x \<longrightarrow> average x < average e)
            \<and> (\<forall>x\<in>set []. qualifies x \<longrightarrow> average x \<le> average e)"
          using True t by simp
        then show ?thesis by blast
      next
        case (Some t0)
        then obtain pre e0 post where es: "es = pre @ e0 # post" and q: "qualifies e0"
          and t0: "t0 = asTop e0"
          and p1: "\<forall>x\<in>set pre. qualifies x \<longrightarrow> average x < average e0"
          and p2: "\<forall>x\<in>set post. qualifies x \<longrightarrow> average x \<le> average e0"
          using some by blast
        show ?thesis
        proof (cases "average e > average e0")
          case gt: True
          then have t: "t = asTop e"
            using new True Some t0 by (simp add: top_step_alt td_avg_asTop)
          have "\<forall>x\<in>set es. qualifies x \<longrightarrow> average x < average e"
            using es p1 p2 gt by fastforce
          then have "es @ [e] = es @ e # [] \<and> qualifies e \<and> t = asTop e
              \<and> (\<forall>x\<in>set es. qualifies x \<longrightarrow> average x < average e)
              \<and> (\<forall>x\<in>set []. qualifies x \<longrightarrow> average x \<le> average e)"
            using True t by simp
          then show ?thesis by blast
        next
          case le: False
          then have t: "t = asTop e0"
            using new True Some t0 by (simp add: top_step_alt td_avg_asTop)
          have "es @ [e] = pre @ e0 # (post @ [e])" using es by simp
          moreover have "\<forall>x\<in>set (post @ [e]). qualifies x \<longrightarrow> average x \<le> average e0"
            using p2 le by auto
          ultimately show ?thesis using q t p1 by blast
        qed
      qed
    qed
    show ?thesis unfolding step using a b by blast
  qed
qed

text \<open>
  What \<open>topDirector\<close> returns, in terms of the credits: a director qualifies with
  three credits or more; the result is the qualifying director with the greatest
  mean rating, the one credited first among equals; it is \<open>null\<close> when none
  qualifies.
\<close>

lemma tallied_credits:
  "tallied (creditList rs) d
     = (if credits rs d = [] then None
        else Some (sum_list (credits rs d), length (credits rs d)))"
  by (simp add: tallied_def credits_def Let_def)

lemma dirMap_entry_iff:
  "(d, s, k) \<in> set (dirMap rs)
     \<longleftrightarrow> credits rs d \<noteq> [] \<and> s = sum_list (credits rs d) \<and> k = length (credits rs d)"
proof -
  have dist: "distinct (map fst (dirMap rs))"
    and mp: "map_of (dirMap rs) d = tallied (creditList rs) d"
    using tally_invariant[of "creditList rs"] by (simp_all add: dirMap_tally)
  have "(d, s, k) \<in> set (dirMap rs) \<longleftrightarrow> map_of (dirMap rs) d = Some (s, k)"
    using dist by simp
  then show ?thesis by (auto simp: mp tallied_credits)
qed

lemma dirMap_entry:
  assumes "e \<in> set (dirMap rs)"
  shows "snd (snd e) = length (credits rs (fst e)) \<and> average e = mean (credits rs (fst e))"
proof -
  obtain d s k where e: "e = (d, s, k)" by (cases e)
  then show ?thesis
    using assms dirMap_entry_iff[of d s k rs] by (simp add: average_def mean_def)
qed

lemma dirMap_has_entry:
  assumes "credits rs d \<noteq> []"
  shows "\<exists>e\<in>set (dirMap rs). fst e = d"
  using assms dirMap_entry_iff[of d "sum_list (credits rs d)" "length (credits rs d)" rs]
  by force

lemma dirMap_keys_ordered:
  "sorted_wrt (\<lambda>a b. firstCredit rs a < firstCredit rs b) (map fst (dirMap rs))"
  using tally_invariant[of "creditList rs"] by (simp add: dirMap_tally firstCredit_def)

lemma topDirector_characterisation:
  "(topDirector rs = None \<longleftrightarrow> (\<forall>d. length (credits rs d) < 3))
   \<and> (\<forall>t. topDirector rs = Some t \<longrightarrow>
         td_n t = length (credits rs (td_director t)) \<and> 3 \<le> td_n t
         \<and> td_avg t = mean (credits rs (td_director t))
         \<and> (\<forall>d. 3 \<le> length (credits rs d) \<longrightarrow>
               mean (credits rs d) \<le> td_avg t
               \<and> (mean (credits rs d) = td_avg t \<longrightarrow>
                    firstCredit rs (td_director t) \<le> firstCredit rs d)))"
proof (intro conjI allI impI)
  show "topDirector rs = None \<longleftrightarrow> (\<forall>d. length (credits rs d) < 3)"
  proof
    assume "topDirector rs = None"
    then have nq: "\<forall>e\<in>set (dirMap rs). \<not> qualifies e"
      using top_fold[of "dirMap rs"] by (simp add: topDirector_def)
    show "\<forall>d. length (credits rs d) < 3"
    proof
      fix d
      show "length (credits rs d) < 3"
      proof (cases "credits rs d = []")
        case True
        then show ?thesis by simp
      next
        case False
        then obtain e where e: "e \<in> set (dirMap rs)" and d: "fst e = d"
          using dirMap_has_entry by blast
        then have "\<not> qualifies e" using nq by blast
        then show ?thesis using dirMap_entry[OF e] d by (simp add: qualifies_def)
      qed
    qed
  next
    assume small: "\<forall>d. length (credits rs d) < 3"
    have "\<forall>e\<in>set (dirMap rs). \<not> qualifies e"
    proof
      fix e assume "e \<in> set (dirMap rs)"
      then have "snd (snd e) = length (credits rs (fst e))" using dirMap_entry by blast
      then show "\<not> qualifies e" using small[rule_format, of "fst e"] by (simp add: qualifies_def)
    qed
    then show "topDirector rs = None"
      using top_fold[of "dirMap rs"] by (simp add: topDirector_def)
  qed
next
  fix t assume "topDirector rs = Some t"
  then obtain pre e0 post where dm: "dirMap rs = pre @ e0 # post" and q: "qualifies e0"
    and t: "t = asTop e0"
    and p1: "\<forall>x\<in>set pre. qualifies x \<longrightarrow> average x < average e0"
    and p2: "\<forall>x\<in>set post. qualifies x \<longrightarrow> average x \<le> average e0"
    using top_fold[of "dirMap rs"] unfolding topDirector_def by blast
  have e0: "e0 \<in> set (dirMap rs)" using dm by simp
  have td: "td_director t = fst e0" "td_n t = snd (snd e0)" "td_avg t = average e0"
    using t by (simp_all add: asTop_def)
  show n: "td_n t = length (credits rs (td_director t))"
    using dirMap_entry[OF e0] td by simp
  show "3 \<le> td_n t" using q td by (simp add: qualifies_def)
  show a: "td_avg t = mean (credits rs (td_director t))"
    using dirMap_entry[OF e0] td by simp
  fix d assume three: "3 \<le> length (credits rs d)"
  then have "credits rs d \<noteq> []" by auto
  then obtain e where e: "e \<in> set (dirMap rs)" and d: "fst e = d"
    using dirMap_has_entry by blast
  have eq: "qualifies e" and ea: "average e = mean (credits rs d)"
    using dirMap_entry[OF e] d three by (simp_all add: qualifies_def)
  have where_e: "e \<in> set pre \<or> e = e0 \<or> e \<in> set post" using e dm by auto
  show "mean (credits rs d) \<le> td_avg t"
    using where_e p1 p2 eq ea td(3) by fastforce
  assume same: "mean (credits rs d) = td_avg t"
  have "e \<notin> set pre" using p1 eq ea same td(3) by fastforce
  then have "e = e0 \<or> e \<in> set post" using where_e by blast
  moreover have "\<forall>x\<in>set post. firstCredit rs (fst e0) < firstCredit rs (fst x)"
    using dirMap_keys_ordered[of rs] by (simp add: dm sorted_wrt_append)
  ultimately show "firstCredit rs (td_director t) \<le> firstCredit rs d"
    using d td(1) by (auto simp: less_imp_le)
qed

text \<open>
  When no record names a director twice, the credits of a director are as many as
  the records that credit it.
\<close>

lemma filter_name_distinct:
  "distinct ds \<Longrightarrow>
   filter (\<lambda>c. fst c = d) (map (\<lambda>x. (x, y)) ds) = (if d \<in> set ds then [(d, y)] else [])"
  by (induction ds) auto

lemma fin_Number_isFinite: "Number_isFinite v \<longleftrightarrow> fin v \<noteq> None"
  by (cases v rule: fin.cases) simp_all

lemma credits_Cons:
  "credits (r # rs) d
     = map snd (filter (\<lambda>c. fst c = d)
                  (case fin (uu_yourRating r) of
                     None \<Rightarrow> []
                   | Some y \<Rightarrow> map (\<lambda>x. (x, y)) (directorNames (uu_directors r))))
       @ credits rs d"
  by (simp add: credits_def creditList_def)

lemma credits_distinct_names:
  "list_all (\<lambda>r. distinct (directorNames (uu_directors r))) rs
   \<Longrightarrow> length (credits rs d) = length (creditingRecords rs d)"
proof (induction rs)
  case Nil
  then show ?case by (simp add: credits_def creditList_def creditingRecords_def)
next
  case (Cons r rs)
  then have dist: "distinct (directorNames (uu_directors r))"
    and IH: "length (credits rs d) = length (creditingRecords rs d)"
    by simp_all
  have cr: "creditingRecords (r # rs) d
      = (if d \<in> set (directorNames (uu_directors r)) \<and> Number_isFinite (uu_yourRating r)
         then [r] else []) @ creditingRecords rs d"
    by (simp add: creditingRecords_def)
  show ?case
  proof (cases "fin (uu_yourRating r)")
    case None
    then show ?thesis
      by (simp add: credits_Cons cr IH fin_Number_isFinite)
  next
    case (Some y)
    then show ?thesis
      by (simp add: credits_Cons cr IH fin_Number_isFinite filter_name_distinct[OF dist])
  qed
qed

lemma topDirector_distinct_names:
  assumes "list_all (\<lambda>r. distinct (directorNames (uu_directors r))) rs"
  shows "(topDirector rs = None \<longleftrightarrow> (\<forall>d. length (creditingRecords rs d) < 3))
         \<and> (\<forall>t. topDirector rs = Some t \<longrightarrow>
               td_n t = length (creditingRecords rs (td_director t)) \<and> 3 \<le> td_n t)"
proof -
  have eq: "\<And>d. length (credits rs d) = length (creditingRecords rs d)"
    using assms by (rule credits_distinct_names)
  have a: "topDirector rs = None \<longleftrightarrow> (\<forall>d. length (credits rs d) < 3)"
    and b: "\<forall>t. topDirector rs = Some t \<longrightarrow>
               td_n t = length (credits rs (td_director t)) \<and> 3 \<le> td_n t"
    using topDirector_characterisation[of rs] by blast+
  show ?thesis using a b by (simp only: eq)
qed

lemma names_AAA: "directorNames ''A, A, A'' = [''A'', ''A'', ''A'']"
  by (simp add: directorNames_def trim_def is_space_def)

lemma names_Nolan: "directorNames ''Nolan'' = [''Nolan'']"
  by (simp add: directorNames_def trim_def is_space_def)

lemma topDirector_AAA: "topDirector [directed ''A, A, A'' 8] = Some \<lparr> td_director = ''A'', td_avg = 8, td_n = 3 \<rparr>"
  by (simp add: topDirector_def dirMap_def dirMap_row_def directed_def rated_def names_AAA
      credit_def top_step_def)

lemma creditingRecords_AAA: "length (creditingRecords [directed ''A, A, A'' 8] ''A'') = 1"
  by (simp add: creditingRecords_def directed_def rated_def names_AAA)

lemma topDirector_two: "topDirector [directed ''Nolan'' 8, directed ''Nolan'' 9] = None"
  by (simp add: topDirector_def dirMap_def dirMap_row_def directed_def rated_def names_Nolan
      credit_def top_step_def)

lemma topDirector_three: "topDirector [directed ''Nolan'' 8, directed ''Nolan'' 9, directed ''Nolan'' 7]
   = Some \<lparr> td_director = ''Nolan'', td_avg = 8, td_n = 3 \<rparr>"
  by (simp add: topDirector_def dirMap_def dirMap_row_def directed_def rated_def names_Nolan
      credit_def top_step_def)

text \<open>
  C6 (fails in the code). The tally counts one credit for every occurrence of a
  name in a directors list, so the single record with the directors
  \<open>A, A, A\<close> and the rating \<open>8\<close> makes \<open>A\<close> the top director with \<open>n = 3\<close>, although only
  one record credits \<open>A\<close>. Scenario B holds: two records rated \<open>8\<close> and \<open>9\<close> do not
  qualify their director, a third rated \<open>7\<close> qualifies it with the average \<open>8\<close>
  over three titles.
\<close>

theorem topDirector_repeated_name:
  "topDirector [directed ''A, A, A'' 8] = Some \<lparr> td_director = ''A'', td_avg = 8, td_n = 3 \<rparr>
   \<and> length (creditingRecords [directed ''A, A, A'' 8] ''A'') = 1
   \<and> topDirector [directed ''Nolan'' 8, directed ''Nolan'' 9] = None
   \<and> topDirector [directed ''Nolan'' 8, directed ''Nolan'' 9, directed ''Nolan'' 7]
       = Some \<lparr> td_director = ''Nolan'', td_avg = 8, td_n = 3 \<rparr>"
  by (simp only: topDirector_AAA creditingRecords_AAA topDirector_two topDirector_three simp_thms)


end
